theory Spec2Isabelle
  imports Complex_Main "HOL-Library.AList"
begin

section \<open>Data model of \<open>character.ts\<close>\<close>

text \<open>
  The module is object-oriented TypeScript compiled to Luau. Objects that the code shares by
  reference (property tables, the static entity-to-Character map, Character objects) live in
  explicit heaps; a reference is an address. A heap is total: every address has a content,
  and \<open>top\<close> is the next address that an allocation hands out, so an address below
  \<open>top\<close> is an allocated object and a fresh object never aliases one of them.
  Luau numbers are modelled as real numbers (exact arithmetic, no NaN).
\<close>

type_synonym addr = nat

type_synonym Instance = nat

record 'a heap =
  cell :: "addr \<Rightarrow> 'a"
  top :: addr

definition alloc :: "'a heap \<Rightarrow> 'a \<Rightarrow> addr \<times> 'a heap" where
  "alloc h v = (top h, h\<lparr>cell := (cell h)(top h := v), top := top h + 1\<rparr>)"

text \<open>\<open>table.clone(t)\<close>: a new table with the fields of \<open>t\<close> (a shallow copy).\<close>

definition clone :: "'a heap \<Rightarrow> addr \<Rightarrow> addr \<times> 'a heap" where
  "clone h a = alloc h (cell h a)"

text \<open>An in-place mutation of the object at address \<open>a\<close>: its content \<open>x\<close> becomes \<open>f x\<close>.\<close>

definition mutate :: "'a heap \<Rightarrow> addr \<Rightarrow> ('a \<Rightarrow> 'a) \<Rightarrow> 'a heap" where
  "mutate h a f = h\<lparr>cell := (cell h)(a := f (cell h a))\<rparr>"

text \<open>
  \<open>AffectableHumanoidProps = Pick<Humanoid, "WalkSpeed" | "JumpPower" | "AutoRotate" |
  "JumpHeight">\<close>: three numbers and one boolean. The same four field names carry the
  partial override record of an effect (each field optional) and \<open>incPriorityList\<close> (each
  field a number), so the record is polymorphic in the two field types.
\<close>

record ('n, 'b) HumanoidProps =
  WalkSpeed :: 'n
  JumpPower :: 'n
  AutoRotate :: 'b
  JumpHeight :: 'n

type_synonym AffectableHumanoidProps = "(real, bool) HumanoidProps"

type_synonym PartialHumanoidProps = "(real option, bool option) HumanoidProps"

type_synonym IncPriorityList = "(real, real) HumanoidProps"

datatype Mode = Increment | Set

record HumanoidData =
  Props :: PartialHumanoidProps
  Mode :: Mode
  Priority :: real

record StatusData =
  className :: string

text \<open>
  The interface of a \<open>StatusEffect\<close> that \<open>character.ts\<close> uses: \<open>GetId()\<close>,
  \<open>GetHumanoidData()\<close> (undefined when the effect exposes no humanoid data) and
  \<open>_packData()\<close>. Two effect objects with equal fields are the same effect in the model.
\<close>

record StatusEffect =
  GetId :: string
  GetHumanoidData :: "HumanoidData option"
  packData :: StatusData

record CharacterData =
  statusEffects :: "(string \<times> StatusData) list"
  defaultProps :: addr

datatype Signal = StatusEffectAdded StatusEffect | StatusEffectRemoved StatusEffect

datatype JanitorItem = DamageTaken | Destroyed | Connection nat | Unsubscribe

text \<open>Calls that the Character makes on effect objects: \<open>new constructor(this, {flag, data: Id})\<close>
  with the class name resolved and the id, and \<open>Status.Destroy()\<close>.\<close>

datatype Call = New string string | DestroyCall StatusEffect

text \<open>
  A \<open>Character\<close> object. \<open>Humanoid\<close> holds the four live properties of the Humanoid
  sub-object; \<open>statusEffects\<close> is the \<open>Map<string, StatusEffect>\<close> in insertion order;
  \<open>defaultsProps\<close> is a reference to a property table. \<open>fired\<close> lists the firings of
  \<open>StatusEffectAdded\<close> and \<open>StatusEffectRemoved\<close>; \<open>connections\<close> are the live connections
  to \<open>HumanoidDataChanged\<close> signals (a fresh number each); \<open>onDestroyed\<close> are the pending
  \<open>Status.Destroyed.Once\<close> handlers, each a closure over its \<open>Status\<close> and its \<open>conn\<close>;
  \<open>subscribed\<close> tells whether the \<open>rootProducer\<close> subscription is installed.
\<close>

record Character =
  Instance :: Instance
  Humanoid :: AffectableHumanoidProps
  statusEffects :: "(string \<times> StatusEffect) list"
  defaultsProps :: addr
  janitor :: "JanitorItem list"
  fired :: "Signal list"
  connections :: "nat list"
  nextConnection :: nat
  onDestroyed :: "(StatusEffect \<times> nat) list"
  subscribed :: bool
  calls :: "Call list"

datatype Flag = CanCreateCharacterClient | CanAssignCustomId

text \<open>
  What the module reads from its collaborators: the process role (\<open>RunService\<close>), the
  handler readiness check, the Humanoid child of an instance, and the Effect Registry.

  Modelled from the spec: a construction capability of the Effect Registry (module
  \<open>./statusEffect\<close>, not part of this file) is called with the owning Character and the
  \<open>CanAssignCustomId\<close> directive, and returns a new effect instance; the bridge itself
  inserts the instance in the effect map. A capability is a function from the id of the
  directive to the new effect, and each registry is a parameter.
\<close>

record Env =
  IsClient :: bool
  IsServer :: bool
  getActiveHandler :: bool
  FindFirstChildOfClass_Humanoid :: "Instance \<Rightarrow> AffectableHumanoidProps option"
  GetRegisteredStatusEffectConstructor :: "string \<Rightarrow> (string \<Rightarrow> StatusEffect) option"

datatype Error =
  ManualClientCreation | DuplicateCharacter | NoActiveHandler | NoHumanoid | ReplicationError

text \<open>Actions dispatched to \<open>rootProducer\<close>; the only patch sent carries \<open>defaultProps\<close>.\<close>

datatype StoreAction =
  setCharacterData Instance CharacterData
| patchCharacterData Instance addr
| deleteCharacterData Instance

text \<open>
  The state of one process: the heaps of Character objects, of \<open>Map<Instance, Character>\<close>
  tables and of property tables, the static field \<open>currentCharMap\<close> (a reference to a map),
  the firings of the static signal \<open>CharacterCreated\<close> and the actions sent to the store.
\<close>

record World =
  characters :: "Character heap"
  maps :: "(Instance \<times> addr) list heap"
  tables :: "AffectableHumanoidProps heap"
  currentCharMap :: addr
  CharacterCreated :: "addr list"
  rootProducer :: "StoreAction list"

section \<open>Property recomputation\<close>

text \<open>The field initialiser of \<open>defaultsProps\<close> (\<open>JumpHeight\<close> is 7.2).\<close>

definition initialDefaultsProps :: AffectableHumanoidProps where
  "initialDefaultsProps =
     \<lparr>WalkSpeed = 16, JumpPower = 100, AutoRotate = True, JumpHeight = 36 / 5\<rparr>"

definition initialIncPriorityList :: IncPriorityList where
  "initialIncPriorityList = \<lparr>WalkSpeed = 0, JumpPower = 0, AutoRotate = 0, JumpHeight = 0\<rparr>"

text \<open>
  \<open>!previousSetMPriority\<close> on a \<open>number | undefined\<close>: true when the variable is undefined,
  and also when it holds 0 (JavaScript truthiness, which the compiler to Luau preserves).
\<close>

definition falsy :: "real option \<Rightarrow> bool" where
  "falsy p = (case p of None \<Rightarrow> True | Some n \<Rightarrow> n = 0)"

text \<open>
  The body of the Increment branch, \<open>for (const [PropertyName, Value] of pairs(Props))\<close>:
  each property present is visited once, and the visits touch different fields. A numeric
  value (\<open>WalkSpeed\<close>, \<open>JumpPower\<close>, \<open>JumpHeight\<close>) is added; the boolean \<open>AutoRotate\<close> replaces
  the running value when the priority exceeds the one recorded for it.
\<close>

definition incrementProps ::
  "real \<Rightarrow> PartialHumanoidProps \<Rightarrow> AffectableHumanoidProps \<times> IncPriorityList
     \<Rightarrow> AffectableHumanoidProps \<times> IncPriorityList" where
  "incrementProps priority ov st =
     (case st of (propsToApply, incPriorityList) \<Rightarrow>
        let p1 = (case WalkSpeed ov of None \<Rightarrow> propsToApply
                  | Some Value \<Rightarrow> propsToApply\<lparr>WalkSpeed := Value + WalkSpeed propsToApply\<rparr>);
            p2 = (case JumpPower ov of None \<Rightarrow> p1
                  | Some Value \<Rightarrow> p1\<lparr>JumpPower := Value + JumpPower p1\<rparr>);
            p3 = (case JumpHeight ov of None \<Rightarrow> p2
                  | Some Value \<Rightarrow> p2\<lparr>JumpHeight := Value + JumpHeight p2\<rparr>)
        in (case AutoRotate ov of None \<Rightarrow> (p3, incPriorityList)
            | Some Value \<Rightarrow>
                if priority > AutoRotate incPriorityList
                then (p3\<lparr>AutoRotate := Value\<rparr>, incPriorityList\<lparr>AutoRotate := priority\<rparr>)
                else (p3, incPriorityList)))"

text \<open>The body of the Set branch: every property present replaces the running value.\<close>

definition setProps :: "PartialHumanoidProps \<Rightarrow> AffectableHumanoidProps \<Rightarrow> AffectableHumanoidProps" where
  "setProps ov propsToApply =
     (let p1 = (case WalkSpeed ov of None \<Rightarrow> propsToApply | Some Value \<Rightarrow> propsToApply\<lparr>WalkSpeed := Value\<rparr>);
          p2 = (case JumpPower ov of None \<Rightarrow> p1 | Some Value \<Rightarrow> p1\<lparr>JumpPower := Value\<rparr>);
          p3 = (case AutoRotate ov of None \<Rightarrow> p2 | Some Value \<Rightarrow> p2\<lparr>AutoRotate := Value\<rparr>)
      in (case JumpHeight ov of None \<Rightarrow> p3 | Some Value \<Rightarrow> p3\<lparr>JumpHeight := Value\<rparr>))"

text \<open>
  The callback of \<open>statuses.forEach\<close> (lines 97 to 118), on the three variables it updates:
  \<open>propsToApply\<close>, \<open>incPriorityList\<close> and \<open>previousSetMPriority\<close>.
\<close>

definition mergeStatus ::
  "AffectableHumanoidProps \<times> IncPriorityList \<times> real option \<Rightarrow> StatusEffect
     \<Rightarrow> AffectableHumanoidProps \<times> IncPriorityList \<times> real option" where
  "mergeStatus st StatusEffect =
     (case st of (propsToApply, incPriorityList, previousSetMPriority) \<Rightarrow>
        (case GetHumanoidData StatusEffect of
           None \<Rightarrow> st
         | Some humanoidData \<Rightarrow>
             if Mode humanoidData = Increment \<and> falsy previousSetMPriority then
               (case incrementProps (Priority humanoidData) (Props humanoidData)
                       (propsToApply, incPriorityList) of
                  (p, l) \<Rightarrow> (p, l, previousSetMPriority))
             else if Mode humanoidData = Set
                     \<and> (falsy previousSetMPriority
                         \<or> (case previousSetMPriority of None \<Rightarrow> False
                             | Some q \<Rightarrow> Priority humanoidData > q)) then
               (setProps (Props humanoidData) propsToApply, incPriorityList,
                Some (Priority humanoidData))
             else st))"

text \<open>The whole loop over a list of effects, from a baseline: the merged property set.\<close>

definition mergeStatuses :: "AffectableHumanoidProps \<Rightarrow> StatusEffect list \<Rightarrow> AffectableHumanoidProps" where
  "mergeStatuses props statuses =
     fst (foldl mergeStatus (props, initialIncPriorityList, None) statuses)"

text \<open>
  Line 85 fills \<open>statuses\<close> with
  \<open>Status.GetHumanoidData() ?? statuses.push(Status)\<close>. The operator \<open>??\<close> evaluates its
  right operand only when the left one is undefined, so an effect is pushed exactly when
  \<open>GetHumanoidData()\<close> returns undefined.
\<close>

definition collectStatuses :: "(string \<times> StatusEffect) list \<Rightarrow> StatusEffect list" where
  "collectStatuses effects =
     map snd (filter (\<lambda>(Ident, Status). GetHumanoidData Status = None) effects)"

definition updateHumanoidProps :: "AffectableHumanoidProps heap \<Rightarrow> Character \<Rightarrow> Character" where
  "updateHumanoidProps T this =
     (let statuses = collectStatuses (statusEffects this) in
      if statuses = [] then this
      else this\<lparr>Humanoid := mergeStatuses (cell T (defaultsProps this)) statuses\<rparr>)"

section \<open>Attaching and destroying effects\<close>

definition addStatus :: "AffectableHumanoidProps heap \<Rightarrow> Character \<Rightarrow> StatusEffect \<Rightarrow> Character" where
  "addStatus T this Status =
     (let c1 = this\<lparr>statusEffects := AList.update (GetId Status) Status (statusEffects this)\<rparr>;
          c2 = c1\<lparr>fired := fired c1 @ [StatusEffectAdded Status]\<rparr>;
          c3 = updateHumanoidProps T c2;
          conn = nextConnection c3;
          c4 = c3\<lparr>connections := connections c3 @ [conn], nextConnection := conn + 1\<rparr>;
          c5 = c4\<lparr>janitor := janitor c4 @ [Connection conn]\<rparr>
      in c5\<lparr>onDestroyed := onDestroyed c5 @ [(Status, conn)]\<rparr>)"

text \<open>The handler that \<open>_addStatus\<close> passes to \<open>Status.Destroyed.Once\<close> (lines 149 to 154).\<close>

definition onStatusDestroyed ::
  "AffectableHumanoidProps heap \<Rightarrow> Character \<Rightarrow> StatusEffect \<times> nat \<Rightarrow> Character" where
  "onStatusDestroyed T this h =
     (case h of (Status, conn) \<Rightarrow>
        let c1 = this\<lparr>connections := removeAll conn (connections this)\<rparr>;
            c2 = c1\<lparr>statusEffects := AList.delete (GetId Status) (statusEffects c1)\<rparr>;
            c3 = c2\<lparr>fired := fired c2 @ [StatusEffectRemoved Status]\<rparr>
        in updateHumanoidProps T c3)"

text \<open>
  Modelled from the spec: \<open>StatusEffect.Destroy\<close> (module \<open>./statusEffect\<close>, not part of this
  file) raises the effect's one-time destruction notification: the handlers registered on
  \<open>Status.Destroyed\<close> with \<open>Once\<close> run, in the order of registration, and are dropped.
\<close>

definition Status_Destroy :: "AffectableHumanoidProps heap \<Rightarrow> Character \<Rightarrow> StatusEffect \<Rightarrow> Character" where
  "Status_Destroy T this Status =
     foldl (onStatusDestroyed T)
       (this\<lparr>onDestroyed := filter (\<lambda>h. fst h \<noteq> Status) (onDestroyed this),
             calls := calls this @ [DestroyCall Status]\<rparr>)
       (filter (\<lambda>h. fst h = Status) (onDestroyed this))"

section \<open>Snapshots, baseline properties and replication\<close>

definition Character_packData :: "Character \<Rightarrow> CharacterData" where
  "Character_packData this =
     \<lparr>CharacterData.statusEffects =
        foldl (\<lambda>packedStatusEffect (Ident, Status). AList.update Ident (packData Status) packedStatusEffect)
          [] (statusEffects this),
      defaultProps = defaultsProps this\<rparr>"

definition SetDefaultProps ::
  "Env \<Rightarrow> Character \<times> StoreAction list \<Rightarrow> addr \<Rightarrow> Character \<times> StoreAction list" where
  "SetDefaultProps env st props =
     (case st of (this, producer) \<Rightarrow>
        (this\<lparr>defaultsProps := props\<rparr>,
         if IsServer env then producer @ [patchCharacterData (Instance this) props] else producer))"

definition GetDefaultsProps :: "AffectableHumanoidProps heap \<Rightarrow> Character \<Rightarrow> addr \<times> AffectableHumanoidProps heap" where
  "GetDefaultsProps T this = clone T (defaultsProps this)"

definition GetCharacterMap :: "World \<Rightarrow> addr \<times> World" where
  "GetCharacterMap w =
     (case clone (maps w) (currentCharMap w) of (a, m) \<Rightarrow> (a, w\<lparr>maps := m\<rparr>))"

text \<open>
  Modelled from the spec: \<open>logError\<close> (module \<open>./utility\<close>, not part of this file) logs its
  message and is fatal: the caller does not continue. A call of \<open>logError\<close> is the error
  returned at that point.
\<close>

definition logError :: "Error \<Rightarrow> Error + 'a" where
  "logError e = Inl e"

definition processStatusAddition :: "Env \<Rightarrow> Character \<Rightarrow> StatusData \<Rightarrow> string \<Rightarrow> Error + Character" where
  "processStatusAddition env this Data Ident =
     (case GetRegisteredStatusEffectConstructor env (className Data) of
        None \<Rightarrow> logError ReplicationError
      | Some constructor \<Rightarrow>
          Inr (this\<lparr>statusEffects := AList.update Ident (constructor Ident) (statusEffects this),
                    calls := calls this @ [New (className Data) Ident]\<rparr>))"

text \<open>The first loop of the subscription callback (lines 195 to 199).\<close>

fun addMissing :: "Env \<Rightarrow> (string \<times> StatusData) list \<Rightarrow> Character \<Rightarrow> Error option \<times> Character" where
  "addMissing env [] this = (None, this)"
| "addMissing env ((Ident, Data) # rest) this =
     (if map_of (statusEffects this) Ident = None then
        (case processStatusAddition env this Data Ident of
           Inl e \<Rightarrow> (Some e, this)
         | Inr this' \<Rightarrow> addMissing env rest this')
      else addMissing env rest this)"

text \<open>
  The second loop (lines 201 to 205), over the entries that the effect map has when the
  loop starts. A traversal does not visit an entry that was removed before its turn.
\<close>

fun destroyStale ::
  "AffectableHumanoidProps heap \<Rightarrow> CharacterData \<Rightarrow> (string \<times> StatusEffect) list \<Rightarrow> Character \<Rightarrow> Character" where
  "destroyStale T Data [] this = this"
| "destroyStale T Data ((Ident, _) # rest) this =
     destroyStale T Data rest
       (case map_of (statusEffects this) Ident of
          None \<Rightarrow> this
        | Some Status \<Rightarrow>
            if map_of (CharacterData.statusEffects Data) Ident = None
            then Status_Destroy T this Status else this)"

text \<open>The callback passed to \<open>rootProducer.subscribe\<close> (lines 192 to 208).\<close>

definition reconcile ::
  "Env \<Rightarrow> AffectableHumanoidProps heap \<Rightarrow> Character \<times> StoreAction list \<Rightarrow> CharacterData option
     \<Rightarrow> Error option \<times> Character \<times> StoreAction list" where
  "reconcile env T st snapshot =
     (case st of (this, producer) \<Rightarrow>
        (case snapshot of
           None \<Rightarrow> (None, this, producer)
         | Some Data \<Rightarrow>
             (case addMissing env (CharacterData.statusEffects Data) this of
                (Some e, c1) \<Rightarrow> (Some e, c1, producer)
              | (None, c1) \<Rightarrow>
                  let c2 = destroyStale T Data (statusEffects c1) c1 in
                  if defaultProps Data \<noteq> defaultsProps c2
                  then (None, SetDefaultProps env (c2, producer) (defaultProps Data))
                  else (None, c2, producer))))"

definition setupReplication_Client :: "Env \<Rightarrow> Character \<Rightarrow> Character" where
  "setupReplication_Client env this =
     (if \<not> IsClient env then this
      else if \<not> getActiveHandler env then this
      else this\<lparr>subscribed := True, janitor := janitor this @ [Unsubscribe]\<rparr>)"

section \<open>Construction\<close>

text \<open>
  The constructor (lines 44 to 81). Each \<open>logError\<close> ends the construction: the result is
  the error and the world as it is at that point. The objects that the field initialisers
  of the abandoned object allocated are unreachable and are not entered in the heaps.
\<close>

definition newCharacter :: "Instance \<Rightarrow> AffectableHumanoidProps \<Rightarrow> addr \<Rightarrow> Character" where
  "newCharacter inst humanoid props =
     \<lparr>Instance = inst, Humanoid = humanoid, statusEffects = [], defaultsProps = props,
      janitor = [], fired = [], connections = [], nextConnection = 0, onDestroyed = [],
      subscribed = False, calls = []\<rparr>"

definition constructor :: "Env \<Rightarrow> World \<Rightarrow> Instance \<Rightarrow> Flag option \<Rightarrow> (Error + addr) \<times> World" where
  "constructor env w inst canCreateClient =
     (if IsClient env \<and> canCreateClient \<noteq> Some CanCreateCharacterClient then
        (logError ManualClientCreation, w)
      else if map_of (cell (maps w) (currentCharMap w)) inst \<noteq> None then
        (logError DuplicateCharacter, w)
      else if \<not> getActiveHandler env then
        (logError NoActiveHandler, w)
      else
        (case FindFirstChildOfClass_Humanoid env inst of
           None \<Rightarrow> (logError NoHumanoid, w)
         | Some humanoid \<Rightarrow>
             (case alloc (tables w) initialDefaultsProps of (props, T) \<Rightarrow>
              case alloc (characters w) (newCharacter inst humanoid props) of (this, C) \<Rightarrow>
                let M = mutate (maps w) (currentCharMap w) (AList.update inst this);
                    c1 = setupReplication_Client env (cell C this);
                    c2 = c1\<lparr>janitor := janitor c1 @ [DamageTaken, Destroyed]\<rparr>;
                    c3 = updateHumanoidProps T c2
                in (Inr this,
                    w\<lparr>characters := C\<lparr>cell := (cell C)(this := c3)\<rparr>,
                      maps := M,
                      tables := T,
                      CharacterCreated := CharacterCreated w @ [this],
                      rootProducer :=
                        (if IsServer env
                         then rootProducer w @ [setCharacterData inst (Character_packData c3)]
                         else rootProducer w)\<rparr>))))"

section \<open>Reading the log of calls\<close>

text \<open>The ids passed to effect constructors, and the effects that \<open>Destroy()\<close> was called
  on, in the order of the calls.\<close>

fun constructedIds :: "Call list \<Rightarrow> string list" where
  "constructedIds [] = []"
| "constructedIds (New cls i # cs) = i # constructedIds cs"
| "constructedIds (DestroyCall s # cs) = constructedIds cs"

fun destroyedEffects :: "Call list \<Rightarrow> StatusEffect list" where
  "destroyedEffects [] = []"
| "destroyedEffects (New cls i # cs) = destroyedEffects cs"
| "destroyedEffects (DestroyCall s # cs) = s # destroyedEffects cs"

section \<open>Concrete objects used in the examples\<close>

definition tables0 :: "AffectableHumanoidProps heap" where
  "tables0 = \<lparr>cell = (\<lambda>a. initialDefaultsProps), top = 1\<rparr>"

definition character0 :: Character where
  "character0 = newCharacter 0 initialDefaultsProps 0"

definition noProps :: PartialHumanoidProps where
  "noProps = \<lparr>WalkSpeed = None, JumpPower = None, AutoRotate = None, JumpHeight = None\<rparr>"

definition effect :: "string \<Rightarrow> Mode \<Rightarrow> real \<Rightarrow> real \<Rightarrow> StatusEffect" where
  "effect i m priority speed =
     \<lparr>GetId = i,
      GetHumanoidData = Some \<lparr>Props = noProps\<lparr>WalkSpeed := Some speed\<rparr>, Mode = m, Priority = priority\<rparr>,
      packData = \<lparr>className = ''Effect''\<rparr>\<rparr>"

definition plainEffect :: "string \<Rightarrow> StatusEffect" where
  "plainEffect i = \<lparr>GetId = i, GetHumanoidData = None, packData = \<lparr>className = ''Effect''\<rparr>\<rparr>"

text \<open>A registry that knows the single type name \<open>Effect\<close>, an observing process, an
  authoritative process, and a process with no Character yet.\<close>

definition registry0 :: "string \<Rightarrow> (string \<Rightarrow> StatusEffect) option" where
  "registry0 name = (if name = ''Effect'' then Some plainEffect else None)"

definition clientEnv :: Env where
  "clientEnv = \<lparr>IsClient = True, IsServer = False, getActiveHandler = True,
     FindFirstChildOfClass_Humanoid = (\<lambda>i. Some initialDefaultsProps),
     GetRegisteredStatusEffectConstructor = registry0\<rparr>"

definition serverEnv :: Env where
  "serverEnv = \<lparr>IsClient = False, IsServer = True, getActiveHandler = True,
     FindFirstChildOfClass_Humanoid = (\<lambda>i. Some initialDefaultsProps),
     GetRegisteredStatusEffectConstructor = registry0\<rparr>"

definition world0 :: World where
  "world0 = \<lparr>characters = \<lparr>cell = (\<lambda>a. character0), top = 0\<rparr>,
     maps = \<lparr>cell = (\<lambda>a. []), top = 1\<rparr>,
     tables = \<lparr>cell = (\<lambda>a. initialDefaultsProps), top = 0\<rparr>,
     currentCharMap = 0, CharacterCreated = [], rootProducer = []\<rparr>"

definition snapshot :: "(string \<times> string) list \<Rightarrow> addr \<Rightarrow> CharacterData" where
  "snapshot effects props =
     \<lparr>CharacterData.statusEffects = map (\<lambda>(i, name). (i, \<lparr>className = name\<rparr>)) effects,
      defaultProps = props\<rparr>"

text \<open>Two reconciliation cycles of an observing Character with no effect: the snapshot
  \<open>{x: data}\<close>, then the snapshot with no effect. And the world after a first Character
  was constructed over the instance 7 on the authoritative process.\<close>

definition cycle1 :: "Error option \<times> Character \<times> StoreAction list" where
  "cycle1 = reconcile clientEnv tables0 (character0, []) (Some (snapshot [(''x'', ''Effect'')] 0))"

definition cycle2 :: "Error option \<times> Character \<times> StoreAction list" where
  "cycle2 = reconcile clientEnv tables0 (fst (snd cycle1), []) (Some (snapshot [] 0))"

text \<open>An observing Character that holds one attached effect \<open>y\<close>, and a cycle on it whose
  snapshot names an unregistered type for \<open>x\<close>, lacks \<open>y\<close> and carries another baseline
  table.\<close>

definition character1 :: Character where
  "character1 = addStatus tables0 character0 (plainEffect ''y'')"

definition cycleUnknown :: "Error option \<times> Character \<times> StoreAction list" where
  "cycleUnknown = reconcile clientEnv tables0 (character1, []) (Some (snapshot [(''x'', ''Unknown'')] 5))"

definition world1 :: World where
  "world1 = snd (constructor serverEnv world0 7 None)"

section \<open>Facts about the recomputation pass\<close>

lemmas example_defs =
  tables0_def character0_def newCharacter_def effect_def plainEffect_def noProps_def
  initialDefaultsProps_def initialIncPriorityList_def

lemmas merge_defs =
  mergeStatuses_def mergeStatus_def incrementProps_def setProps_def falsy_def

lemmas update_defs = updateHumanoidProps_def collectStatuses_def addStatus_def Let_def

lemma logError_eq [simp]: "logError e = Inl e"
  by (simp add: logError_def)

lemma foldl_mergeStatus_no_data:
  "\<forall>s \<in> set ss. GetHumanoidData s = None \<Longrightarrow> foldl mergeStatus st ss = st"
  by (induction ss arbitrary: st) (auto simp: mergeStatus_def split: prod.splits)

text \<open>The list that line 85 collects holds no effect with humanoid data, so the loop over
  it returns the baseline it started from.\<close>

lemma mergeStatuses_collectStatuses: "mergeStatuses p (collectStatuses effects) = p"
proof -
  have "\<forall>s \<in> set (collectStatuses effects). GetHumanoidData s = None"
    by (auto simp: collectStatuses_def)
  then show ?thesis
    by (simp add: mergeStatuses_def foldl_mergeStatus_no_data)
qed

lemma collectStatuses_empty_iff:
  "collectStatuses effects = [] \<longleftrightarrow> (\<forall>(i, s) \<in> set effects. GetHumanoidData s \<noteq> None)"
  by (auto simp: collectStatuses_def filter_empty_conv)

text \<open>What the pass does on every Character: nothing when every effect exposes humanoid
  data (or there is no effect), and otherwise it writes the baseline to the Humanoid.\<close>

lemma updateHumanoidProps_eq:
  "updateHumanoidProps T c =
     (if collectStatuses (statusEffects c) = [] then c
      else c\<lparr>Humanoid := cell T (defaultsProps c)\<rparr>)"
  by (simp add: updateHumanoidProps_def Let_def mergeStatuses_collectStatuses)

lemma updateHumanoidProps_fields [simp]:
  "Instance (updateHumanoidProps T c) = Instance c"
  "statusEffects (updateHumanoidProps T c) = statusEffects c"
  "defaultsProps (updateHumanoidProps T c) = defaultsProps c"
  "janitor (updateHumanoidProps T c) = janitor c"
  "fired (updateHumanoidProps T c) = fired c"
  "connections (updateHumanoidProps T c) = connections c"
  "nextConnection (updateHumanoidProps T c) = nextConnection c"
  "onDestroyed (updateHumanoidProps T c) = onDestroyed c"
  "subscribed (updateHumanoidProps T c) = subscribed c"
  "calls (updateHumanoidProps T c) = calls c"
  by (simp_all add: updateHumanoidProps_eq)

lemma Humanoid_updateHumanoidProps:
  "Humanoid (updateHumanoidProps T c) =
     (if collectStatuses (statusEffects c) = [] then Humanoid c else cell T (defaultsProps c))"
  by (simp add: updateHumanoidProps_eq)

text \<open>
  C1. The claim: the pass considers exactly the effects that expose humanoid data, and
  when none exposes any it leaves the baseline and the live properties untouched. The code
  at two inputs. A Character whose only effect is a Set-mode effect with priority 1 and
  override \<open>WalkSpeed = 10\<close>: the pass returns the Character unchanged, although the loop
  run on that effect gives \<open>WalkSpeed = 10\<close>. A Character whose live \<open>WalkSpeed\<close> is 30 and
  whose only effect exposes no humanoid data: the pass writes the baseline 16 over it.
\<close>

theorem updateHumanoidProps_considers_the_effects_without_data:
  "updateHumanoidProps tables0 (character0\<lparr>statusEffects := [(''A'', effect ''A'' Set 1 10)]\<rparr>)
     = character0\<lparr>statusEffects := [(''A'', effect ''A'' Set 1 10)]\<rparr>
   \<and> WalkSpeed (mergeStatuses initialDefaultsProps [effect ''A'' Set 1 10]) = 10
   \<and> WalkSpeed (Humanoid (updateHumanoidProps tables0
        (character0\<lparr>Humanoid := initialDefaultsProps\<lparr>WalkSpeed := 30\<rparr>,
                    statusEffects := [(''N'', plainEffect ''N'')]\<rparr>))) = 16"
  by (simp add: example_defs merge_defs update_defs)

text \<open>
  C2. The claim: with Set-mode effects A (priority 1, \<open>WalkSpeed = 10\<close>) and B (priority 5,
  \<open>WalkSpeed = 20\<close>) attached in either order, \<open>WalkSpeed = 20\<close> is written to the Humanoid.
  The code, on a new Character with baseline and live \<open>WalkSpeed\<close> 16: after attaching A and
  B, in either order, the live \<open>WalkSpeed\<close> is still 16. The loop itself, run on A and B in
  either order, gives 20.
\<close>

theorem attaching_two_Set_effects_leaves_WalkSpeed:
  "WalkSpeed (Humanoid (addStatus tables0 (addStatus tables0 character0 (effect ''A'' Set 1 10))
                          (effect ''B'' Set 5 20))) = 16
   \<and> WalkSpeed (Humanoid (addStatus tables0 (addStatus tables0 character0 (effect ''B'' Set 5 20))
                          (effect ''A'' Set 1 10))) = 16
   \<and> WalkSpeed (mergeStatuses initialDefaultsProps [effect ''A'' Set 1 10, effect ''B'' Set 5 20]) = 20
   \<and> WalkSpeed (mergeStatuses initialDefaultsProps [effect ''B'' Set 5 20, effect ''A'' Set 1 10]) = 20"
  by (simp add: example_defs merge_defs update_defs)

text \<open>
  C3. The claim: with baseline \<open>WalkSpeed\<close> 16 and exactly two Increment-mode effects
  (priority 1, \<open>+5\<close>; priority 2, \<open>+3\<close>), recomputation writes 24 to the Humanoid. The code:
  after both effects are attached the live \<open>WalkSpeed\<close> is still 16. The loop itself, run on
  the two effects from the baseline, gives 24.
\<close>

theorem attaching_two_Increment_effects_leaves_WalkSpeed:
  "WalkSpeed (cell tables0 (defaultsProps character0)) = 16
   \<and> WalkSpeed (Humanoid (addStatus tables0 (addStatus tables0 character0 (effect ''A'' Increment 1 5))
                          (effect ''B'' Increment 2 3))) = 16
   \<and> WalkSpeed (mergeStatuses initialDefaultsProps
                  [effect ''A'' Increment 1 5, effect ''B'' Increment 2 3]) = 24"
  by (simp add: example_defs merge_defs update_defs)

text \<open>
  C4. The claim: in a pass the first Set-mode effect always applies, a later one applies
  only with a strictly higher priority, and after a Set-mode effect has applied every
  Increment-mode effect is skipped. The code: a pass over a Character whose only effect is a
  Set-mode effect (priority 3, \<open>WalkSpeed = 10\<close>) leaves the live \<open>WalkSpeed\<close> at 16, the
  effect does not apply. The loop itself, run on a list of effects: after Set at priority 3
  an Increment at priority 10 is skipped (10); after Set at priority 0 the Increment is
  added (15) and a Set at priority -1 applies (5), since a threshold of 0 counts as unset.
\<close>

theorem first_Set_effect_does_not_apply:
  "WalkSpeed (Humanoid (updateHumanoidProps tables0
        (character0\<lparr>statusEffects := [(''S'', effect ''S'' Set 3 10)]\<rparr>))) = 16
   \<and> WalkSpeed (mergeStatuses initialDefaultsProps
                  [effect ''S'' Set 3 10, effect ''I'' Increment 10 5]) = 10
   \<and> WalkSpeed (mergeStatuses initialDefaultsProps
                  [effect ''S'' Set 0 10, effect ''I'' Increment 10 5]) = 15
   \<and> WalkSpeed (mergeStatuses initialDefaultsProps
                  [effect ''S'' Set 0 10, effect ''L'' Set (-1) 5]) = 5"
  by (simp add: example_defs merge_defs update_defs)

section \<open>Destroying an attached effect\<close>

lemma onStatusDestroyed_fields [simp]:
  "statusEffects (onStatusDestroyed T c (s, k)) = AList.delete (GetId s) (statusEffects c)"
  "connections (onStatusDestroyed T c (s, k)) = removeAll k (connections c)"
  "fired (onStatusDestroyed T c (s, k)) = fired c @ [StatusEffectRemoved s]"
  "defaultsProps (onStatusDestroyed T c (s, k)) = defaultsProps c"
  "onDestroyed (onStatusDestroyed T c (s, k)) = onDestroyed c"
  "calls (onStatusDestroyed T c (s, k)) = calls c"
  "nextConnection (onStatusDestroyed T c (s, k)) = nextConnection c"
  by (simp_all add: onStatusDestroyed_def Let_def)

lemma Humanoid_onStatusDestroyed:
  "Humanoid (onStatusDestroyed T c (s, k)) =
     (if collectStatuses (AList.delete (GetId s) (statusEffects c)) = [] then Humanoid c
      else cell T (defaultsProps c))"
  by (simp add: onStatusDestroyed_def Let_def Humanoid_updateHumanoidProps)

lemma delete_delete_same [simp]: "AList.delete k (AList.delete k xs) = AList.delete k xs"
  by (simp add: AList.delete_eq)

lemma map_of_delete_same [simp]: "map_of (AList.delete k xs) k = None"
  by (simp add: AList.delete_eq map_of_eq_None_iff image_iff)

text \<open>The handlers of one effect, run one after the other (there is more than one when
  the same effect object was attached more than once).\<close>

lemma foldl_onStatusDestroyed:
  assumes "hs \<noteq> []" and "\<forall>h \<in> set hs. fst h = s"
  shows "statusEffects (foldl (onStatusDestroyed T) c hs) = AList.delete (GetId s) (statusEffects c)
    \<and> defaultsProps (foldl (onStatusDestroyed T) c hs) = defaultsProps c
    \<and> set (connections (foldl (onStatusDestroyed T) c hs)) = set (connections c) - snd ` set hs
    \<and> fired (foldl (onStatusDestroyed T) c hs) = fired c @ replicate (length hs) (StatusEffectRemoved s)
    \<and> onDestroyed (foldl (onStatusDestroyed T) c hs) = onDestroyed c
    \<and> calls (foldl (onStatusDestroyed T) c hs) = calls c
    \<and> Humanoid (foldl (onStatusDestroyed T) c hs) =
        (if collectStatuses (AList.delete (GetId s) (statusEffects c)) = [] then Humanoid c
         else cell T (defaultsProps c))"
  using assms
proof (induction hs rule: rev_induct)
  case Nil
  then show ?case by simp
next
  case (snoc h hs)
  obtain s' k where h: "h = (s', k)" by (cases h)
  with snoc.prems have s': "s' = s" by simp
  show ?case
  proof (cases "hs = []")
    case True
    then show ?thesis
      by (auto simp: h s' Humanoid_onStatusDestroyed)
  next
    case False
    with snoc have "statusEffects (foldl (onStatusDestroyed T) c hs) = AList.delete (GetId s) (statusEffects c)
    \<and> defaultsProps (foldl (onStatusDestroyed T) c hs) = defaultsProps c
    \<and> set (connections (foldl (onStatusDestroyed T) c hs)) = set (connections c) - snd ` set hs
    \<and> fired (foldl (onStatusDestroyed T) c hs) = fired c @ replicate (length hs) (StatusEffectRemoved s)
    \<and> onDestroyed (foldl (onStatusDestroyed T) c hs) = onDestroyed c
    \<and> calls (foldl (onStatusDestroyed T) c hs) = calls c
    \<and> Humanoid (foldl (onStatusDestroyed T) c hs) =
        (if collectStatuses (AList.delete (GetId s) (statusEffects c)) = [] then Humanoid c
         else cell T (defaultsProps c))"
      by simp
    then show ?thesis
      by (auto simp: h s' Humanoid_onStatusDestroyed replicate_append_same)
  qed
qed



section \<open>Facts about reconciliation\<close>

lemmas reconcile_defs =
  reconcile_def snapshot_def clientEnv_def registry0_def processStatusAddition_def
  character0_def newCharacter_def plainEffect_def Status_Destroy_def SetDefaultProps_def
  cycle1_def cycle2_def


lemma constructedIds_append [simp]: "constructedIds (xs @ ys) = constructedIds xs @ constructedIds ys"
  by (induction xs rule: constructedIds.induct) simp_all

lemma destroyedEffects_append [simp]: "destroyedEffects (xs @ ys) = destroyedEffects xs @ destroyedEffects ys"
  by (induction xs rule: destroyedEffects.induct) simp_all

lemma Instance_onStatusDestroyed [simp]: "Instance (onStatusDestroyed T c h) = Instance c"
  by (cases h) (simp add: onStatusDestroyed_def Let_def)

lemma Instance_Status_Destroy [simp]: "Instance (Status_Destroy T c s) = Instance c"
proof -
  have "Instance (foldl (onStatusDestroyed T) d hs) = Instance d" for d hs
    by (induction hs arbitrary: d) simp_all
  then show ?thesis by (simp add: Status_Destroy_def)
qed

lemma Status_Destroy_fields:
  "calls (Status_Destroy T c s) = calls c @ [DestroyCall s]"
  "defaultsProps (Status_Destroy T c s) = defaultsProps c"
  "onDestroyed (Status_Destroy T c s) = filter (\<lambda>h. fst h \<noteq> s) (onDestroyed c)"
  "statusEffects (Status_Destroy T c s) =
     (if s \<in> fst ` set (onDestroyed c) then AList.delete (GetId s) (statusEffects c)
      else statusEffects c)"
proof -
  let ?hs = "filter (\<lambda>h. fst h = s) (onDestroyed c)"
  let ?c0 = "c\<lparr>onDestroyed := filter (\<lambda>h. fst h \<noteq> s) (onDestroyed c),
               calls := calls c @ [DestroyCall s]\<rparr>"
  have sd: "Status_Destroy T c s = foldl (onStatusDestroyed T) ?c0 ?hs"
    by (simp add: Status_Destroy_def)
  have all: "\<forall>h \<in> set ?hs. fst h = s" by simp
  have empty: "?hs = [] \<longleftrightarrow> s \<notin> fst ` set (onDestroyed c)"
    by (auto simp: filter_empty_conv)
  have F: "
      statusEffects (foldl (onStatusDestroyed T) ?c0 ?hs) = AList.delete (GetId s) (statusEffects ?c0)
      \<and> defaultsProps (foldl (onStatusDestroyed T) ?c0 ?hs) = defaultsProps ?c0
      \<and> set (connections (foldl (onStatusDestroyed T) ?c0 ?hs)) = set (connections ?c0) - snd ` set ?hs
      \<and> fired (foldl (onStatusDestroyed T) ?c0 ?hs) = fired ?c0 @ replicate (length ?hs) (StatusEffectRemoved s)
      \<and> onDestroyed (foldl (onStatusDestroyed T) ?c0 ?hs) = onDestroyed ?c0
      \<and> calls (foldl (onStatusDestroyed T) ?c0 ?hs) = calls ?c0
      \<and> Humanoid (foldl (onStatusDestroyed T) ?c0 ?hs) =
          (if collectStatuses (AList.delete (GetId s) (statusEffects ?c0)) = [] then Humanoid ?c0
           else cell T (defaultsProps ?c0))"
    if ne: "?hs \<noteq> []"
    using ne all by (rule foldl_onStatusDestroyed)
  show "calls (Status_Destroy T c s) = calls c @ [DestroyCall s]"
    using F unfolding sd by (cases "?hs = []") simp_all
  show "defaultsProps (Status_Destroy T c s) = defaultsProps c"
    using F unfolding sd by (cases "?hs = []") simp_all
  show "onDestroyed (Status_Destroy T c s) = filter (\<lambda>h. fst h \<noteq> s) (onDestroyed c)"
    using F unfolding sd by (cases "?hs = []") simp_all
  show "statusEffects (Status_Destroy T c s) =
     (if s \<in> fst ` set (onDestroyed c) then AList.delete (GetId s) (statusEffects c)
      else statusEffects c)"
  proof (cases "?hs = []")
    case True
    with empty show ?thesis unfolding sd by simp
  next
    case False
    with empty F show ?thesis unfolding sd by simp
  qed
qed

lemma processStatusAddition_Inr:
  "processStatusAddition env c D i = Inr c' \<Longrightarrow>
     \<exists>ctor. GetRegisteredStatusEffectConstructor env (className D) = Some ctor
       \<and> c' = c\<lparr>statusEffects := AList.update i (ctor i) (statusEffects c),
                 calls := calls c @ [New (className D) i]\<rparr>"
  by (auto simp: processStatusAddition_def split: option.splits)

lemma addMissing_defaultsProps:
  "defaultsProps (snd (addMissing env es c)) = defaultsProps c
   \<and> Instance (snd (addMissing env es c)) = Instance c"
proof (induction es arbitrary: c)
  case Nil
  then show ?case by simp
next
  case (Cons e es)
  obtain i D where e: "e = (i, D)" by (cases e)
  show ?case
    by (auto simp: e Cons.IH processStatusAddition_def split: sum.splits option.splits)
qed

lemma destroyStale_defaultsProps:
  "defaultsProps (destroyStale T Data es c) = defaultsProps c
   \<and> Instance (destroyStale T Data es c) = Instance c"
proof (induction es arbitrary: c)
  case Nil
  then show ?case by simp
next
  case (Cons e es)
  obtain i x where e: "e = (i, x)" by (cases e)
  show ?case
    by (simp add: e Cons.IH Status_Destroy_fields split: option.splits)
qed

lemma update_absent: "map_of al k = None \<Longrightarrow> AList.update k v al = al @ [(k, v)]"
  by (induction al) (auto split: if_splits)

lemma addMissing_resolved:
  assumes "\<forall>i D. map_of es i = Some D \<and> map_of (statusEffects c) i = None
             \<longrightarrow> GetRegisteredStatusEffectConstructor env (className D) \<noteq> None"
  shows "\<exists>c'. addMissing env es c = (None, c')
     \<and> (\<forall>i. map_of (statusEffects c') i =
          (if map_of (statusEffects c) i = None
           then (case map_of es i of None \<Rightarrow> None
                 | Some D \<Rightarrow> map_option (\<lambda>ctor. ctor i)
                              (GetRegisteredStatusEffectConstructor env (className D)))
           else map_of (statusEffects c) i))
     \<and> (\<forall>i. count_list (constructedIds (calls c')) i =
          count_list (constructedIds (calls c)) i
            + (if map_of (statusEffects c) i = None \<and> map_of es i \<noteq> None then 1 else 0))
     \<and> destroyedEffects (calls c') = destroyedEffects (calls c)
     \<and> onDestroyed c' = onDestroyed c
     \<and> set (statusEffects c') \<subseteq> set (statusEffects c) \<union> {(k, s). map_of es k \<noteq> None}"
  using assms
proof (induction es arbitrary: c)
  case Nil
  then show ?case by simp
next
  case (Cons e es)
  obtain i0 D0 where e: "e = (i0, D0)" by (cases e)
  show ?case
  proof (cases "map_of (statusEffects c) i0 = None")
    case False
    have "\<forall>i D. map_of es i = Some D \<and> map_of (statusEffects c) i = None
             \<longrightarrow> GetRegisteredStatusEffectConstructor env (className D) \<noteq> None"
    proof (intro allI impI)
      fix i D assume h: "map_of es i = Some D \<and> map_of (statusEffects c) i = None"
      with False have "i \<noteq> i0" by auto
      with h have "map_of (e # es) i = Some D \<and> map_of (statusEffects c) i = None"
        by (simp add: e)
      with Cons.prems show "GetRegisteredStatusEffectConstructor env (className D) \<noteq> None"
        by blast
    qed
    from Cons.IH [OF this] obtain c' where c': "addMissing env es c = (None, c')"
      and rest: "(\<forall>i. map_of (statusEffects c') i =
          (if map_of (statusEffects c) i = None
           then (case map_of es i of None \<Rightarrow> None
                 | Some D \<Rightarrow> map_option (\<lambda>ctor. ctor i)
                              (GetRegisteredStatusEffectConstructor env (className D)))
           else map_of (statusEffects c) i))
     \<and> (\<forall>i. count_list (constructedIds (calls c')) i =
          count_list (constructedIds (calls c)) i
            + (if map_of (statusEffects c) i = None \<and> map_of es i \<noteq> None then 1 else 0))
     \<and> destroyedEffects (calls c') = destroyedEffects (calls c)
     \<and> onDestroyed c' = onDestroyed c
     \<and> set (statusEffects c') \<subseteq> set (statusEffects c) \<union> {(k, s). map_of es k \<noteq> None}"
      by blast
    have "addMissing env (e # es) c = (None, c')"
      using False c' by (auto simp: e)
    moreover have "\<forall>i. map_of (statusEffects c') i =
          (if map_of (statusEffects c) i = None
           then (case map_of (e # es) i of None \<Rightarrow> None
                 | Some D \<Rightarrow> map_option (\<lambda>ctor. ctor i)
                              (GetRegisteredStatusEffectConstructor env (className D)))
           else map_of (statusEffects c) i)"
      using rest False by (auto simp: e)
    moreover have "\<forall>i. count_list (constructedIds (calls c')) i =
          count_list (constructedIds (calls c)) i
            + (if map_of (statusEffects c) i = None \<and> map_of (e # es) i \<noteq> None then 1 else 0)"
      using rest False by (auto simp: e)
    moreover have "set (statusEffects c') \<subseteq> set (statusEffects c) \<union> {(k, s). map_of (e # es) k \<noteq> None}"
      using rest by (auto simp: e)
    ultimately show ?thesis using rest by blast
  next
    case True
    have "map_of (e # es) i0 = Some D0 \<and> map_of (statusEffects c) i0 = None"
      using True by (simp add: e)
    with Cons.prems have "GetRegisteredStatusEffectConstructor env (className D0) \<noteq> None"
      by blast
    then obtain ctor where
      ctor: "GetRegisteredStatusEffectConstructor env (className D0) = Some ctor"
      by auto
    define c1 where "c1 = c\<lparr>statusEffects := AList.update i0 (ctor i0) (statusEffects c),
                 calls := calls c @ [New (className D0) i0]\<rparr>"
    have p: "processStatusAddition env c D0 i0 = Inr c1"
      by (simp add: processStatusAddition_def ctor c1_def)
    have m1: "map_of (statusEffects c1) = (map_of (statusEffects c))(i0 \<mapsto> ctor i0)"
      by (simp add: c1_def update_conv')
    have "\<forall>i D. map_of es i = Some D \<and> map_of (statusEffects c1) i = None
             \<longrightarrow> GetRegisteredStatusEffectConstructor env (className D) \<noteq> None"
    proof (intro allI impI)
      fix i D assume h: "map_of es i = Some D \<and> map_of (statusEffects c1) i = None"
      then have ne: "i \<noteq> i0" by (auto simp: m1)
      with h have "map_of (e # es) i = Some D \<and> map_of (statusEffects c) i = None"
        by (simp add: e m1)
      with Cons.prems show "GetRegisteredStatusEffectConstructor env (className D) \<noteq> None"
        by blast
    qed
    from Cons.IH [OF this] obtain c' where c': "addMissing env es c1 = (None, c')"
      and rest: "(\<forall>i. map_of (statusEffects c') i =
          (if map_of (statusEffects c1) i = None
           then (case map_of es i of None \<Rightarrow> None
                 | Some D \<Rightarrow> map_option (\<lambda>ctor. ctor i)
                              (GetRegisteredStatusEffectConstructor env (className D)))
           else map_of (statusEffects c1) i))
     \<and> (\<forall>i. count_list (constructedIds (calls c')) i =
          count_list (constructedIds (calls c1)) i
            + (if map_of (statusEffects c1) i = None \<and> map_of es i \<noteq> None then 1 else 0))
     \<and> destroyedEffects (calls c') = destroyedEffects (calls c1)
     \<and> onDestroyed c' = onDestroyed c1
     \<and> set (statusEffects c') \<subseteq> set (statusEffects c1) \<union> {(k, s). map_of es k \<noteq> None}"
      by blast
    have s1: "set (statusEffects c1) = set (statusEffects c) \<union> {(i0, ctor i0)}"
      using True by (simp add: c1_def update_absent)
    have "addMissing env (e # es) c = (None, c')"
      using True c' p by (simp add: e)
    moreover have "\<forall>i. map_of (statusEffects c') i =
          (if map_of (statusEffects c) i = None
           then (case map_of (e # es) i of None \<Rightarrow> None
                 | Some D \<Rightarrow> map_option (\<lambda>ctor. ctor i)
                              (GetRegisteredStatusEffectConstructor env (className D)))
           else map_of (statusEffects c) i)"
      using rest True by (auto simp: e m1 ctor)
    moreover have "\<forall>i. count_list (constructedIds (calls c')) i =
          count_list (constructedIds (calls c)) i
            + (if map_of (statusEffects c) i = None \<and> map_of (e # es) i \<noteq> None then 1 else 0)"
    proof
      fix i
      have k1: "count_list (constructedIds (calls c1)) i
                  = count_list (constructedIds (calls c)) i + (if i = i0 then 1 else 0)"
        by (simp add: c1_def)
      from rest have k2: "count_list (constructedIds (calls c')) i =
          count_list (constructedIds (calls c1)) i
            + (if map_of (statusEffects c1) i = None \<and> map_of es i \<noteq> None then 1 else 0)"
        by blast
      show "count_list (constructedIds (calls c')) i =
          count_list (constructedIds (calls c)) i
            + (if map_of (statusEffects c) i = None \<and> map_of (e # es) i \<noteq> None then 1 else 0)"
        unfolding k2 k1 using True by (auto simp: e m1)
    qed
    moreover have "set (statusEffects c') \<subseteq> set (statusEffects c) \<union> {(k, s). map_of (e # es) k \<noteq> None}"
      using rest s1 by (auto simp: e)
    moreover have "destroyedEffects (calls c') = destroyedEffects (calls c)"
      using rest by (simp add: c1_def)
    moreover have "onDestroyed c' = onDestroyed c"
      using rest by (simp add: c1_def)
    ultimately show ?thesis by blast
  qed
qed

text \<open>The first loop writes the effect map and the log of constructor calls only.\<close>

lemma addMissing_frame:
  "destroyedEffects (calls (snd (addMissing env es c))) = destroyedEffects (calls c)
   \<and> onDestroyed (snd (addMissing env es c)) = onDestroyed c
   \<and> Humanoid (snd (addMissing env es c)) = Humanoid c
   \<and> fired (snd (addMissing env es c)) = fired c
   \<and> connections (snd (addMissing env es c)) = connections c"
proof (induction es arbitrary: c)
  case Nil
  then show ?case by simp
next
  case (Cons e es)
  obtain i D where e: "e = (i, D)" by (cases e)
  show ?case
    by (auto simp: e Cons.IH processStatusAddition_def split: sum.splits option.splits)
qed

text \<open>An id of the snapshot that is absent locally and whose type name is not registered
  stops the first loop, at that id or before it.\<close>

lemma addMissing_unresolved:
  assumes "map_of es i0 = Some D0" and "map_of (statusEffects c) i0 = None"
    and "GetRegisteredStatusEffectConstructor env (className D0) = None"
  shows "fst (addMissing env es c) = Some ReplicationError
     \<and> map_of (statusEffects (snd (addMissing env es c))) i0 = None
     \<and> count_list (constructedIds (calls (snd (addMissing env es c)))) i0
         = count_list (constructedIds (calls c)) i0"
  using assms
proof (induction es arbitrary: c)
  case Nil
  then show ?case by simp
next
  case (Cons e es)
  obtain i D where e: "e = (i, D)" by (cases e)
  show ?case
  proof (cases "map_of (statusEffects c) i = None")
    case False
    with Cons.prems have ne: "i \<noteq> i0" by auto
    with Cons.prems have "map_of es i0 = Some D0" by (simp add: e)
    from Cons.IH [OF this Cons.prems(2) Cons.prems(3)] False show ?thesis
      by (auto simp: e)
  next
    case True
    show ?thesis
    proof (cases "GetRegisteredStatusEffectConstructor env (className D)")
      case None
      then have "addMissing env (e # es) c = (Some ReplicationError, c)"
        using True by (simp add: e processStatusAddition_def)
      with Cons.prems show ?thesis by simp
    next
      case (Some ctor)
      with Cons.prems have ne: "i \<noteq> i0" by (auto simp: e)
      define c1 where "c1 = c\<lparr>statusEffects := AList.update i (ctor i) (statusEffects c),
                 calls := calls c @ [New (className D) i]\<rparr>"
      have step: "addMissing env (e # es) c = addMissing env es c1"
        using True Some by (simp add: e processStatusAddition_def c1_def)
      from ne Cons.prems have m: "map_of es i0 = Some D0" by (simp add: e)
      have a: "map_of (statusEffects c1) i0 = None"
        using ne Cons.prems(2) by (simp add: c1_def update_conv')
      have k: "count_list (constructedIds (calls c1)) i0 = count_list (constructedIds (calls c)) i0"
        using ne by (simp add: c1_def)
      from Cons.IH [OF m a Cons.prems(3)] show ?thesis
        unfolding step by (simp add: k)
    qed
  qed
qed

text \<open>A cycle whose first loop stops returns there: the second loop and the comparison of
  the baseline references are not run.\<close>

lemma reconcile_stopped:
  "fst (addMissing env (CharacterData.statusEffects Data) this) = Some x \<Longrightarrow>
   reconcile env T (this, producer) (Some Data)
     = (Some x, snd (addMissing env (CharacterData.statusEffects Data) this), producer)"
  by (cases "addMissing env (CharacterData.statusEffects Data) this") (simp add: reconcile_def)

lemma destroyStale_stale:
  assumes "\<forall>(k, s) \<in> set (statusEffects c).
             map_of (CharacterData.statusEffects Data) k = None \<longrightarrow> GetId s = k"
  shows "(\<forall>k. map_of (CharacterData.statusEffects Data) k \<noteq> None \<longrightarrow>
            map_of (statusEffects (destroyStale T Data es c)) k = map_of (statusEffects c) k)
     \<and> (\<forall>k s. k \<in> fst ` set es \<and> map_of (statusEffects c) k = Some s
                \<and> map_of (CharacterData.statusEffects Data) k = None \<longrightarrow>
            count_list (destroyedEffects (calls c)) s
              < count_list (destroyedEffects (calls (destroyStale T Data es c))) s)
     \<and> (\<forall>s. count_list (destroyedEffects (calls c)) s
              \<le> count_list (destroyedEffects (calls (destroyStale T Data es c))) s)
     \<and> constructedIds (calls (destroyStale T Data es c)) = constructedIds (calls c)"
  using assms
proof (induction es arbitrary: c)
  case Nil
  then show ?case by simp
next
  case (Cons e es)
  obtain k0 x where e: "e = (k0, x)" by (cases e)
  let ?snap = "CharacterData.statusEffects Data"
  show ?case
  proof (cases "\<exists>s0. map_of (statusEffects c) k0 = Some s0 \<and> map_of ?snap k0 = None")
    case False
    then have step: "destroyStale T Data (e # es) c = destroyStale T Data es c"
      by (auto simp: e split: option.splits)
    note IH = Cons.IH [OF Cons.prems]
    from IH have IH2: "\<forall>k s. k \<in> fst ` set es \<and> map_of (statusEffects c) k = Some s
                \<and> map_of ?snap k = None \<longrightarrow>
            count_list (destroyedEffects (calls c)) s
              < count_list (destroyedEffects (calls (destroyStale T Data es c))) s"
      by (rule conjunct1 [OF conjunct2])
    have b: "count_list (destroyedEffects (calls c)) s
              < count_list (destroyedEffects (calls (destroyStale T Data es c))) s"
      if k: "k \<in> fst ` set (e # es)" and s: "map_of (statusEffects c) k = Some s"
        and st: "map_of ?snap k = None" for k s
    proof -
      from False s st have "k \<noteq> k0" by auto
      with k have "k \<in> fst ` set es" by (auto simp: e)
      with IH2 s st show ?thesis by simp
    qed
    from IH have a: "\<forall>k. map_of ?snap k \<noteq> None \<longrightarrow>
            map_of (statusEffects (destroyStale T Data es c)) k = map_of (statusEffects c) k"
      by (rule conjunct1)
    from IH have mono: "\<forall>s. count_list (destroyedEffects (calls c)) s
              \<le> count_list (destroyedEffects (calls (destroyStale T Data es c))) s"
      by (rule conjunct1 [OF conjunct2 [OF conjunct2]])
    from IH have d: "constructedIds (calls (destroyStale T Data es c)) = constructedIds (calls c)"
      by (rule conjunct2 [OF conjunct2 [OF conjunct2]])
    show ?thesis
      unfolding step
      apply (intro conjI allI impI)
         apply (simp add: a)
        apply (erule conjE)+
        apply (rule b, assumption+)
       apply (simp add: mono)
      apply (rule d)
      done
  next
    case True
    then obtain s0 where s0: "map_of (statusEffects c) k0 = Some s0"
      and stale: "map_of ?snap k0 = None" by blast
    define c1 where "c1 = Status_Destroy T c s0"
    have step: "destroyStale T Data (e # es) c = destroyStale T Data es c1"
      by (simp add: e s0 stale c1_def)
    from s0 have "(k0, s0) \<in> set (statusEffects c)" by (rule map_of_SomeD)
    with Cons.prems stale have id0: "GetId s0 = k0" by auto
    have se1: "statusEffects c1 = statusEffects c \<or> statusEffects c1 = AList.delete k0 (statusEffects c)"
      by (simp add: c1_def Status_Destroy_fields id0)
    have calls1: "calls c1 = calls c @ [DestroyCall s0]"
      by (simp add: c1_def Status_Destroy_fields)
    have sub: "set (statusEffects c1) \<subseteq> set (statusEffects c)"
      using se1 by (auto simp: AList.delete_eq)
    have other: "map_of (statusEffects c1) k = map_of (statusEffects c) k" if "k \<noteq> k0" for k
      using se1 that by auto
    have "\<forall>(k, s) \<in> set (statusEffects c1). map_of ?snap k = None \<longrightarrow> GetId s = k"
    proof (clarify)
      fix k s assume "(k, s) \<in> set (statusEffects c1)" and n: "map_of ?snap k = None"
      with sub have "(k, s) \<in> set (statusEffects c)" by (simp add: subsetD)
      with Cons.prems n show "GetId s = k" by auto
    qed
    note IH = Cons.IH [OF this]
    from IH have IH1: "\<forall>k. map_of ?snap k \<noteq> None \<longrightarrow>
            map_of (statusEffects (destroyStale T Data es c1)) k = map_of (statusEffects c1) k"
      by (rule conjunct1)
    from IH have IH2: "\<forall>k s. k \<in> fst ` set es \<and> map_of (statusEffects c1) k = Some s
                \<and> map_of ?snap k = None \<longrightarrow>
            count_list (destroyedEffects (calls c1)) s
              < count_list (destroyedEffects (calls (destroyStale T Data es c1))) s"
      by (rule conjunct1 [OF conjunct2])
    from IH have IH3: "\<forall>s. count_list (destroyedEffects (calls c1)) s
              \<le> count_list (destroyedEffects (calls (destroyStale T Data es c1))) s"
      by (rule conjunct1 [OF conjunct2 [OF conjunct2]])
    from IH have IH4: "constructedIds (calls (destroyStale T Data es c1)) = constructedIds (calls c1)"
      by (rule conjunct2 [OF conjunct2 [OF conjunct2]])
    have a: "\<forall>k. map_of ?snap k \<noteq> None \<longrightarrow>
            map_of (statusEffects (destroyStale T Data es c1)) k = map_of (statusEffects c) k"
    proof (intro allI impI)
      fix k assume k: "map_of ?snap k \<noteq> None"
      with stale have "k \<noteq> k0" by auto
      then have "map_of (statusEffects c1) k = map_of (statusEffects c) k" by (rule other)
      with IH1 k show "map_of (statusEffects (destroyStale T Data es c1)) k = map_of (statusEffects c) k"
        by simp
    qed
    have mono: "count_list (destroyedEffects (calls c)) s
              \<le> count_list (destroyedEffects (calls (destroyStale T Data es c1))) s" for s
    proof -
      have "count_list (destroyedEffects (calls c)) s \<le> count_list (destroyedEffects (calls c1)) s"
        by (simp add: calls1)
      also have "\<dots> \<le> count_list (destroyedEffects (calls (destroyStale T Data es c1))) s"
        using IH3 by simp
      finally show ?thesis .
    qed
    have b: "count_list (destroyedEffects (calls c)) s
              < count_list (destroyedEffects (calls (destroyStale T Data es c1))) s"
      if k: "k \<in> fst ` set (e # es)" and s: "map_of (statusEffects c) k = Some s"
        and st: "map_of ?snap k = None" for k s
    proof (cases "k = k0")
      case True
      with s s0 have "s = s0" by simp
      then have "count_list (destroyedEffects (calls c)) s < count_list (destroyedEffects (calls c1)) s"
        by (simp add: calls1)
      also have "\<dots> \<le> count_list (destroyedEffects (calls (destroyStale T Data es c1))) s"
        using IH3 by simp
      finally show ?thesis .
    next
      case False
      with k have k': "k \<in> fst ` set es" by (auto simp: e)
      have "map_of (statusEffects c1) k = Some s" using other [OF False] s by simp
      with IH2 k' st have "count_list (destroyedEffects (calls c1)) s
              < count_list (destroyedEffects (calls (destroyStale T Data es c1))) s"
        by simp
      moreover have "count_list (destroyedEffects (calls c)) s \<le> count_list (destroyedEffects (calls c1)) s"
        by (simp add: calls1)
      ultimately show ?thesis by simp
    qed
    have d: "constructedIds (calls (destroyStale T Data es c1)) = constructedIds (calls c)"
      using IH4 by (simp add: calls1)
    show ?thesis
      unfolding step
      apply (intro conjI allI impI)
         apply (simp add: a)
        apply (erule conjE)+
        apply (rule b, assumption+)
       apply (rule mono)
      apply (rule d)
      done
  qed
qed

lemma SetDefaultProps_fields [simp]:
  "statusEffects (fst (SetDefaultProps env (c, producer) p)) = statusEffects c"
  "calls (fst (SetDefaultProps env (c, producer) p)) = calls c"
  "defaultsProps (fst (SetDefaultProps env (c, producer) p)) = p"
  "snd (SetDefaultProps env (c, producer) p) =
     (if IsServer env then producer @ [patchCharacterData (Instance c) p] else producer)"
  by (simp_all add: SetDefaultProps_def)

lemma reconcile_Some:
  "addMissing env (CharacterData.statusEffects Data) this = (None, c1) \<Longrightarrow>
   reconcile env T (this, producer) (Some Data) =
     (let c2 = destroyStale T Data (statusEffects c1) c1 in
      if defaultProps Data \<noteq> defaultsProps this
      then (None, SetDefaultProps env (c2, producer) (defaultProps Data))
      else (None, c2, producer))"
proof -
  assume a: "addMissing env (CharacterData.statusEffects Data) this = (None, c1)"
  have "defaultsProps c1 = defaultsProps this"
    using addMissing_defaultsProps [of env "CharacterData.statusEffects Data" this] a by simp
  then have "defaultsProps (destroyStale T Data (statusEffects c1) c1) = defaultsProps this"
    by (simp add: destroyStale_defaultsProps)
  then show ?thesis
    by (simp add: reconcile_def a Let_def)
qed

text \<open>
  C5, as stated, at a snapshot \<open>{x: data}\<close> whose type name is not registered and an empty
  local map: the cycle stops with the replication error, no constructor is called and the
  local map has no entry under \<open>x\<close>, although \<open>x\<close> is in the snapshot and absent locally.
\<close>

theorem reconcile_unregistered_type_name:
  "fst (reconcile clientEnv tables0 (character0, []) (Some (snapshot [(''x'', ''Unknown'')] 0)))
     = Some ReplicationError
   \<and> map_of (statusEffects (fst (snd (reconcile clientEnv tables0 (character0, [])
        (Some (snapshot [(''x'', ''Unknown'')] 0)))))) ''x'' = None
   \<and> constructedIds (calls (fst (snd (reconcile clientEnv tables0 (character0, [])
        (Some (snapshot [(''x'', ''Unknown'')] 0)))))) = []
   \<and> map_of (CharacterData.statusEffects (snapshot [(''x'', ''Unknown'')] 0)) ''x''
       = Some \<lparr>className = ''Unknown''\<rparr>
   \<and> map_of (statusEffects character0) ''x'' = None"
  by (simp add: reconcile_def snapshot_def clientEnv_def registry0_def processStatusAddition_def
      character0_def newCharacter_def)

text \<open>
  C5, amended. In a cycle on a snapshot, with the local map holding each effect under the
  effect's own id. When every effect id of the snapshot that is absent from the local map
  has a type name registered in the Effect Registry: the cycle completes; each id of the
  snapshot that was absent locally is afterwards bound to the effect that the registered
  constructor built for that id; the number of constructor calls with an id grows by one
  exactly for those ids and not at all for any other; and \<open>Destroy()\<close> is called on each
  effect that was held locally under an id absent from the snapshot. When an effect id of
  the snapshot that is absent from the local map has a type name that is not registered
  (whatever the local map holds): the cycle stops with the replication error; no entry is
  made under that id and no constructor is called with it; \<open>Destroy()\<close> is called on no
  effect, no destruction handler runs, no signal fires and the live properties are not
  written; the cached baseline reference stays and nothing is sent to the store.
\<close>

theorem reconcile_adds_missing_and_destroys_stale:
  "((\<forall>i D. map_of (CharacterData.statusEffects Data) i = Some D \<and> map_of (statusEffects this) i = None
             \<longrightarrow> GetRegisteredStatusEffectConstructor env (className D) \<noteq> None)
    \<and> (\<forall>(k, s) \<in> set (statusEffects this). GetId s = k) \<longrightarrow>
    fst (reconcile env T (this, producer) (Some Data)) = None
    \<and> (\<forall>i D. map_of (CharacterData.statusEffects Data) i = Some D \<and> map_of (statusEffects this) i = None \<longrightarrow>
          (\<exists>ctor. GetRegisteredStatusEffectConstructor env (className D) = Some ctor
             \<and> map_of (statusEffects (fst (snd (reconcile env T (this, producer) (Some Data))))) i
                 = Some (ctor i)))
    \<and> (\<forall>i. count_list (constructedIds (calls (fst (snd (reconcile env T (this, producer) (Some Data)))))) i
           = count_list (constructedIds (calls this)) i
             + (if map_of (statusEffects this) i = None \<and> map_of (CharacterData.statusEffects Data) i \<noteq> None
                then 1 else 0))
    \<and> (\<forall>i s. map_of (statusEffects this) i = Some s \<and> map_of (CharacterData.statusEffects Data) i = None \<longrightarrow>
          count_list (destroyedEffects (calls this)) s
            < count_list (destroyedEffects (calls (fst (snd (reconcile env T (this, producer) (Some Data)))))) s))
   \<and> (map_of (CharacterData.statusEffects Data) i0 = Some D0 \<and> map_of (statusEffects this) i0 = None
       \<and> GetRegisteredStatusEffectConstructor env (className D0) = None \<longrightarrow>
    fst (reconcile env T (this, producer) (Some Data)) = Some ReplicationError
    \<and> map_of (statusEffects (fst (snd (reconcile env T (this, producer) (Some Data))))) i0 = None
    \<and> count_list (constructedIds (calls (fst (snd (reconcile env T (this, producer) (Some Data)))))) i0
        = count_list (constructedIds (calls this)) i0
    \<and> destroyedEffects (calls (fst (snd (reconcile env T (this, producer) (Some Data)))))
        = destroyedEffects (calls this)
    \<and> onDestroyed (fst (snd (reconcile env T (this, producer) (Some Data)))) = onDestroyed this
    \<and> fired (fst (snd (reconcile env T (this, producer) (Some Data)))) = fired this
    \<and> Humanoid (fst (snd (reconcile env T (this, producer) (Some Data)))) = Humanoid this
    \<and> defaultsProps (fst (snd (reconcile env T (this, producer) (Some Data)))) = defaultsProps this
    \<and> snd (snd (reconcile env T (this, producer) (Some Data))) = producer)"
proof -
  let ?snap = "CharacterData.statusEffects Data"
  have completes: "fst (reconcile env T (this, producer) (Some Data)) = None
    \<and> (\<forall>i D. map_of (CharacterData.statusEffects Data) i = Some D \<and> map_of (statusEffects this) i = None \<longrightarrow>
          (\<exists>ctor. GetRegisteredStatusEffectConstructor env (className D) = Some ctor
             \<and> map_of (statusEffects (fst (snd (reconcile env T (this, producer) (Some Data))))) i
                 = Some (ctor i)))
    \<and> (\<forall>i. count_list (constructedIds (calls (fst (snd (reconcile env T (this, producer) (Some Data)))))) i
           = count_list (constructedIds (calls this)) i
             + (if map_of (statusEffects this) i = None \<and> map_of (CharacterData.statusEffects Data) i \<noteq> None
                then 1 else 0))
    \<and> (\<forall>i s. map_of (statusEffects this) i = Some s \<and> map_of (CharacterData.statusEffects Data) i = None \<longrightarrow>
          count_list (destroyedEffects (calls this)) s
            < count_list (destroyedEffects (calls (fst (snd (reconcile env T (this, producer) (Some Data)))))) s)"
    if reg: "\<forall>i D. map_of (CharacterData.statusEffects Data) i = Some D \<and> map_of (statusEffects this) i = None
             \<longrightarrow> GetRegisteredStatusEffectConstructor env (className D) \<noteq> None"
      and own: "\<forall>(k, s) \<in> set (statusEffects this). GetId s = k"
  proof -
    from addMissing_resolved [OF reg] obtain c1 where
      c1: "addMissing env ?snap this = (None, c1)"
      and A1: "\<forall>i. map_of (statusEffects c1) i =
            (if map_of (statusEffects this) i = None
             then (case map_of ?snap i of None \<Rightarrow> None
                   | Some D \<Rightarrow> map_option (\<lambda>ctor. ctor i)
                                (GetRegisteredStatusEffectConstructor env (className D)))
             else map_of (statusEffects this) i)"
      and A2: "\<forall>i. count_list (constructedIds (calls c1)) i =
            count_list (constructedIds (calls this)) i
              + (if map_of (statusEffects this) i = None \<and> map_of ?snap i \<noteq> None then 1 else 0)"
      and A3: "destroyedEffects (calls c1) = destroyedEffects (calls this)"
      and A5: "set (statusEffects c1) \<subseteq> set (statusEffects this) \<union> {(k, s). map_of ?snap k \<noteq> None}"
      by blast
    define c2 where "c2 = destroyStale T Data (statusEffects c1) c1"
    have own1: "\<forall>(k, s) \<in> set (statusEffects c1). map_of ?snap k = None \<longrightarrow> GetId s = k"
    proof (clarify)
      fix k s assume ks: "(k, s) \<in> set (statusEffects c1)" and n: "map_of ?snap k = None"
      with A5 have "(k, s) \<in> set (statusEffects this)" by auto
      with own show "GetId s = k" by auto
    qed
    note B = destroyStale_stale [OF own1, of T "statusEffects c1"]
    from B have B1: "\<forall>k. map_of ?snap k \<noteq> None \<longrightarrow>
              map_of (statusEffects c2) k = map_of (statusEffects c1) k"
      unfolding c2_def by (rule conjunct1)
    from B have B2: "\<forall>k s. k \<in> fst ` set (statusEffects c1) \<and> map_of (statusEffects c1) k = Some s
                  \<and> map_of ?snap k = None \<longrightarrow>
              count_list (destroyedEffects (calls c1)) s < count_list (destroyedEffects (calls c2)) s"
      unfolding c2_def by (rule conjunct1 [OF conjunct2])
    from B have B4: "constructedIds (calls c2) = constructedIds (calls c1)"
      unfolding c2_def by (rule conjunct2 [OF conjunct2 [OF conjunct2]])
    have r: "reconcile env T (this, producer) (Some Data) =
        (if defaultProps Data \<noteq> defaultsProps this
         then (None, SetDefaultProps env (c2, producer) (defaultProps Data))
         else (None, c2, producer))"
      using reconcile_Some [OF c1, of T producer] by (simp add: c2_def Let_def)
    have ok: "fst (reconcile env T (this, producer) (Some Data)) = None"
      by (simp add: r)
    have se: "statusEffects (fst (snd (reconcile env T (this, producer) (Some Data)))) = statusEffects c2"
      by (simp add: r)
    have cl: "calls (fst (snd (reconcile env T (this, producer) (Some Data)))) = calls c2"
      by (simp add: r)
    have ins: "\<exists>ctor. GetRegisteredStatusEffectConstructor env (className D) = Some ctor
               \<and> map_of (statusEffects c2) i = Some (ctor i)"
      if i: "map_of ?snap i = Some D" and n: "map_of (statusEffects this) i = None" for i D
    proof -
      from reg i n have "GetRegisteredStatusEffectConstructor env (className D) \<noteq> None"
        by blast
      then obtain ctor where ctor: "GetRegisteredStatusEffectConstructor env (className D) = Some ctor"
        by auto
      from A1 i n ctor have "map_of (statusEffects c1) i = Some (ctor i)" by simp
      moreover from B1 i have "map_of (statusEffects c2) i = map_of (statusEffects c1) i" by simp
      ultimately show ?thesis using ctor by simp
    qed
    have des: "count_list (destroyedEffects (calls this)) s < count_list (destroyedEffects (calls c2)) s"
      if i: "map_of (statusEffects this) i = Some s" and n: "map_of ?snap i = None" for i s
    proof -
      from A1 i have m: "map_of (statusEffects c1) i = Some s" by simp
      then have "(i, s) \<in> set (statusEffects c1)" by (rule map_of_SomeD)
      then have "i \<in> fst ` set (statusEffects c1)" by force
      with B2 m n have "count_list (destroyedEffects (calls c1)) s < count_list (destroyedEffects (calls c2)) s"
        by simp
      then show ?thesis by (simp add: A3)
    qed
    show ?thesis
      unfolding se cl
      apply (intro conjI allI impI)
         apply (rule ok)
        apply (erule conjE, rule ins, assumption+)
       apply (simp add: B4 A2)
      apply (erule conjE, rule des, assumption+)
      done
  qed
  have stops: "fst (reconcile env T (this, producer) (Some Data)) = Some ReplicationError
    \<and> map_of (statusEffects (fst (snd (reconcile env T (this, producer) (Some Data))))) i0 = None
    \<and> count_list (constructedIds (calls (fst (snd (reconcile env T (this, producer) (Some Data)))))) i0
        = count_list (constructedIds (calls this)) i0
    \<and> destroyedEffects (calls (fst (snd (reconcile env T (this, producer) (Some Data)))))
        = destroyedEffects (calls this)
    \<and> onDestroyed (fst (snd (reconcile env T (this, producer) (Some Data)))) = onDestroyed this
    \<and> fired (fst (snd (reconcile env T (this, producer) (Some Data)))) = fired this
    \<and> Humanoid (fst (snd (reconcile env T (this, producer) (Some Data)))) = Humanoid this
    \<and> defaultsProps (fst (snd (reconcile env T (this, producer) (Some Data)))) = defaultsProps this
    \<and> snd (snd (reconcile env T (this, producer) (Some Data))) = producer"
    if m: "map_of ?snap i0 = Some D0" and n: "map_of (statusEffects this) i0 = None"
      and u: "GetRegisteredStatusEffectConstructor env (className D0) = None"
  proof -
    note U = addMissing_unresolved [OF m n u]
    from U have e: "fst (addMissing env ?snap this) = Some ReplicationError"
      by (rule conjunct1)
    have r: "reconcile env T (this, producer) (Some Data)
               = (Some ReplicationError, snd (addMissing env ?snap this), producer)"
      using e by (rule reconcile_stopped)
    show ?thesis
      unfolding r
      using U addMissing_frame [of env ?snap this] addMissing_defaultsProps [of env ?snap this]
      by simp
  qed
  show ?thesis
    apply (rule conjI)
     apply (rule impI, erule conjE, rule completes, assumption+)
    apply (rule impI, elim conjE, rule stops, assumption+)
    done
qed

theorem reconcile_adds_missing_and_destroys_stale_witness:
  "fst cycle1 = None
   \<and> map_of (statusEffects (fst (snd cycle1))) ''x'' = Some (plainEffect ''x'')
   \<and> count_list (constructedIds (calls (fst (snd cycle1)))) ''x'' = 1
   \<and> fst cycle2 = None
   \<and> destroyedEffects (calls (fst (snd cycle2))) = [plainEffect ''x'']
   \<and> map_of (statusEffects character1) ''y'' = Some (plainEffect ''y'')
   \<and> defaultsProps character1 = 0
   \<and> fst cycleUnknown = Some ReplicationError
   \<and> map_of (statusEffects (fst (snd cycleUnknown))) ''x'' = None
   \<and> constructedIds (calls (fst (snd cycleUnknown))) = []
   \<and> destroyedEffects (calls (fst (snd cycleUnknown))) = []
   \<and> defaultsProps (fst (snd cycleUnknown)) = 0"
proof -
  have h1: "\<forall>i D. map_of (CharacterData.statusEffects (snapshot [(''x'', ''Effect'')] 0)) i = Some D
              \<and> map_of (statusEffects character0) i = None
              \<longrightarrow> GetRegisteredStatusEffectConstructor clientEnv (className D) \<noteq> None"
    by (simp add: reconcile_defs)
  have h2: "\<forall>(k, s) \<in> set (statusEffects character0). GetId s = k"
    by (simp add: reconcile_defs)
  have m: "map_of (CharacterData.statusEffects (snapshot [(''x'', ''Effect'')] 0)) ''x''
             = Some \<lparr>className = ''Effect''\<rparr>
           \<and> map_of (statusEffects character0) ''x'' = None
           \<and> GetRegisteredStatusEffectConstructor clientEnv ''Effect'' = Some plainEffect
           \<and> constructedIds (calls character0) = []"
    by (simp add: reconcile_defs)
  have c2: "fst cycle2 = None \<and> destroyedEffects (calls (fst (snd cycle2))) = [plainEffect ''x'']"
    by (simp add: reconcile_defs)
  note W = reconcile_adds_missing_and_destroys_stale
             [where Data = "snapshot [(''x'', ''Effect'')] 0" and this = character0
                and env = clientEnv and T = tables0 and producer = "[]",
              folded cycle1_def]
  from W h1 h2 have R: "fst cycle1 = None
    \<and> (\<forall>i D. map_of (CharacterData.statusEffects (snapshot [(''x'', ''Effect'')] 0)) i = Some D
                 \<and> map_of (statusEffects character0) i = None \<longrightarrow>
          (\<exists>ctor. GetRegisteredStatusEffectConstructor clientEnv (className D) = Some ctor
             \<and> map_of (statusEffects (fst (snd cycle1))) i = Some (ctor i)))
    \<and> (\<forall>i. count_list (constructedIds (calls (fst (snd cycle1)))) i
           = count_list (constructedIds (calls character0)) i
             + (if map_of (statusEffects character0) i = None
                    \<and> map_of (CharacterData.statusEffects (snapshot [(''x'', ''Effect'')] 0)) i \<noteq> None
                then 1 else 0))
    \<and> (\<forall>i s. map_of (statusEffects character0) i = Some s
                 \<and> map_of (CharacterData.statusEffects (snapshot [(''x'', ''Effect'')] 0)) i = None \<longrightarrow>
          count_list (destroyedEffects (calls character0)) s
            < count_list (destroyedEffects (calls (fst (snd cycle1)))) s)"
    by blast
  from R have r1: "fst cycle1 = None"
    by (rule conjunct1)
  from R have "\<forall>i D. map_of (CharacterData.statusEffects (snapshot [(''x'', ''Effect'')] 0)) i = Some D
                 \<and> map_of (statusEffects character0) i = None \<longrightarrow>
          (\<exists>ctor. GetRegisteredStatusEffectConstructor clientEnv (className D) = Some ctor
             \<and> map_of (statusEffects (fst (snd cycle1))) i = Some (ctor i))"
    by (rule conjunct1 [OF conjunct2])
  then have "\<exists>ctor. GetRegisteredStatusEffectConstructor clientEnv (className \<lparr>className = ''Effect''\<rparr>) = Some ctor
             \<and> map_of (statusEffects (fst (snd cycle1))) ''x'' = Some (ctor ''x'')"
    using m by blast
  with m have r2: "map_of (statusEffects (fst (snd cycle1))) ''x'' = Some (plainEffect ''x'')"
    by auto
  from R have "\<forall>i. count_list (constructedIds (calls (fst (snd cycle1)))) i
           = count_list (constructedIds (calls character0)) i
             + (if map_of (statusEffects character0) i = None
                    \<and> map_of (CharacterData.statusEffects (snapshot [(''x'', ''Effect'')] 0)) i \<noteq> None
                then 1 else 0)"
    by (rule conjunct1 [OF conjunct2 [OF conjunct2]])
  then have "count_list (constructedIds (calls (fst (snd cycle1)))) ''x''
           = count_list (constructedIds (calls character0)) ''x''
             + (if map_of (statusEffects character0) ''x'' = None
                    \<and> map_of (CharacterData.statusEffects (snapshot [(''x'', ''Effect'')] 0)) ''x'' \<noteq> None
                then 1 else 0)"
    by (rule spec)
  with m have r3: "count_list (constructedIds (calls (fst (snd cycle1)))) ''x'' = 1"
    by simp
  have u: "map_of (CharacterData.statusEffects (snapshot [(''x'', ''Unknown'')] 5)) ''x''
             = Some \<lparr>className = ''Unknown''\<rparr>
           \<and> map_of (statusEffects character1) ''x'' = None
           \<and> GetRegisteredStatusEffectConstructor clientEnv (className \<lparr>className = ''Unknown''\<rparr>) = None"
    by (simp add: reconcile_defs character1_def update_defs)
  have v: "map_of (statusEffects character1) ''y'' = Some (plainEffect ''y'')
           \<and> defaultsProps character1 = 0
           \<and> constructedIds (calls character1) = []
           \<and> destroyedEffects (calls character1) = []"
    by (simp add: reconcile_defs character1_def update_defs)
  note V = reconcile_adds_missing_and_destroys_stale
             [where Data = "snapshot [(''x'', ''Unknown'')] 5" and this = character1
                and env = clientEnv and T = tables0 and producer = "[]"
                and ?i0.0 = "''x''" and ?D0.0 = "\<lparr>className = ''Unknown''\<rparr>",
              folded cycleUnknown_def]
  from V u have S: "fst cycleUnknown = Some ReplicationError
    \<and> map_of (statusEffects (fst (snd cycleUnknown))) ''x'' = None
    \<and> count_list (constructedIds (calls (fst (snd cycleUnknown)))) ''x''
        = count_list (constructedIds (calls character1)) ''x''
    \<and> destroyedEffects (calls (fst (snd cycleUnknown))) = destroyedEffects (calls character1)
    \<and> onDestroyed (fst (snd cycleUnknown)) = onDestroyed character1
    \<and> fired (fst (snd cycleUnknown)) = fired character1
    \<and> Humanoid (fst (snd cycleUnknown)) = Humanoid character1
    \<and> defaultsProps (fst (snd cycleUnknown)) = defaultsProps character1
    \<and> snd (snd cycleUnknown) = []"
    by blast
  have k: "constructedIds (calls (fst (snd cycleUnknown))) = []"
    by (simp add: reconcile_defs cycleUnknown_def character1_def update_defs)
  from r1 r2 r3 c2 v S k show ?thesis by simp
qed

section \<open>Construction, baseline properties and the accessors\<close>

text \<open>
  C6. When the global map already binds the instance to a Character, constructing a
  Character over that instance returns an error and no object (the manual creation error on
  an observing process without the capability flag, the duplicate error otherwise), and the
  world is the same as before: the existing Character, the global map and everything else.
\<close>

theorem second_construction_fails:
  "map_of (cell (maps w) (currentCharMap w)) inst = Some a \<Longrightarrow>
     constructor env w inst canCreateClient =
       (Inl (if IsClient env \<and> canCreateClient \<noteq> Some CanCreateCharacterClient
             then ManualClientCreation else DuplicateCharacter), w)"
  by (simp add: constructor_def)


theorem second_construction_fails_witness:
  "map_of (cell (maps world1) (currentCharMap world1)) 7 = Some 0
   \<and> constructor serverEnv world1 7 None = (Inl DuplicateCharacter, world1)"
proof -
  have h: "map_of (cell (maps world1) (currentCharMap world1)) 7 = Some 0"
    by (simp add: world1_def world0_def constructor_def serverEnv_def alloc_def mutate_def Let_def)
  show ?thesis
    using h second_construction_fails [OF h, of serverEnv None] by (simp add: serverEnv_def)
qed

text \<open>
  C8, as stated, at a snapshot whose baseline table is another one than the cached table
  and which names an unregistered type for an id absent locally: the cycle stops with the
  replication error, the cached baseline reference is the one of before and nothing is sent
  to the store. The references differ and the baseline is not re-applied.
\<close>

theorem reconcile_stops_before_the_baseline_comparison:
  "defaultProps (snapshot [(''x'', ''Unknown'')] 5) \<noteq> defaultsProps character0
   \<and> fst (reconcile clientEnv tables0 (character0, []) (Some (snapshot [(''x'', ''Unknown'')] 5)))
       = Some ReplicationError
   \<and> defaultsProps (fst (snd (reconcile clientEnv tables0 (character0, [])
        (Some (snapshot [(''x'', ''Unknown'')] 5))))) = defaultsProps character0
   \<and> snd (snd (reconcile clientEnv tables0 (character0, [])
        (Some (snapshot [(''x'', ''Unknown'')] 5)))) = []"
  by (simp add: reconcile_def snapshot_def clientEnv_def registry0_def processStatusAddition_def
      character0_def newCharacter_def)

text \<open>
  C8, amended. \<open>SetDefaultProps\<close> makes its argument the baseline table (all four
  properties are those of the argument) and, on the authoritative side only, sends a patch
  that carries \<open>defaultProps\<close> to the store. In a reconciliation cycle the comparison is
  between references: with the same reference the cached baseline and the store are left
  alone; with a different reference, in a cycle that completes (no replication error), the
  result is that of \<open>SetDefaultProps\<close> with the snapshot's table, whatever the contents of
  the two tables; a cycle that a replication error stops leaves the cached baseline
  reference and the store as they were.
\<close>

theorem SetDefaultProps_and_baseline_reapplication:
  "fst (SetDefaultProps env (this, producer) p) = this\<lparr>defaultsProps := p\<rparr>
   \<and> cell T (defaultsProps (fst (SetDefaultProps env (this, producer) p))) = cell T p
   \<and> snd (SetDefaultProps env (this, producer) p)
       = (if IsServer env then producer @ [patchCharacterData (Instance this) p] else producer)
   \<and> (defaultProps Data = defaultsProps this \<longrightarrow>
        defaultsProps (fst (snd (reconcile env T (this, producer) (Some Data)))) = defaultsProps this
        \<and> snd (snd (reconcile env T (this, producer) (Some Data))) = producer)
   \<and> (fst (reconcile env T (this, producer) (Some Data)) = None
        \<and> defaultProps Data \<noteq> defaultsProps this \<longrightarrow>
        (\<exists>c2. defaultsProps c2 = defaultsProps this \<and> Instance c2 = Instance this
           \<and> snd (reconcile env T (this, producer) (Some Data))
                = SetDefaultProps env (c2, producer) (defaultProps Data)))
   \<and> (fst (reconcile env T (this, producer) (Some Data)) \<noteq> None \<longrightarrow>
        defaultsProps (fst (snd (reconcile env T (this, producer) (Some Data)))) = defaultsProps this
        \<and> snd (snd (reconcile env T (this, producer) (Some Data))) = producer)"
proof -
  let ?snap = "CharacterData.statusEffects Data"
  have s: "fst (SetDefaultProps env (this, producer) p) = this\<lparr>defaultsProps := p\<rparr>
   \<and> cell T (defaultsProps (fst (SetDefaultProps env (this, producer) p))) = cell T p
   \<and> snd (SetDefaultProps env (this, producer) p)
       = (if IsServer env then producer @ [patchCharacterData (Instance this) p] else producer)"
    by (simp add: SetDefaultProps_def)
  obtain e c1 where a: "addMissing env ?snap this = (e, c1)"
    by (cases "addMissing env ?snap this")
  have d1: "defaultsProps c1 = defaultsProps this" and i1: "Instance c1 = Instance this"
    using addMissing_defaultsProps [of env ?snap this] a by simp_all
  define c2 where "c2 = destroyStale T Data (statusEffects c1) c1"
  have d2: "defaultsProps c2 = defaultsProps this" and i2: "Instance c2 = Instance this"
    by (simp_all add: c2_def destroyStale_defaultsProps d1 i1)
  have stopped: "reconcile env T (this, producer) (Some Data) = (Some x, c1, producer)"
    if "e = Some x" for x
    using a that by (simp add: reconcile_def)
  have same: "defaultsProps (fst (snd (reconcile env T (this, producer) (Some Data)))) = defaultsProps this
        \<and> snd (snd (reconcile env T (this, producer) (Some Data))) = producer"
    if eq: "defaultProps Data = defaultsProps this"
  proof (cases e)
    case None
    with a have "addMissing env ?snap this = (None, c1)" by simp
    from reconcile_Some [OF this, of T producer] eq
    have "reconcile env T (this, producer) (Some Data) = (None, c2, producer)"
      by (simp add: c2_def Let_def)
    then show ?thesis by (simp add: d2)
  next
    case (Some x)
    then show ?thesis by (simp add: stopped d1)
  qed
  have differ: "\<exists>c2. defaultsProps c2 = defaultsProps this \<and> Instance c2 = Instance this
           \<and> snd (reconcile env T (this, producer) (Some Data))
                = SetDefaultProps env (c2, producer) (defaultProps Data)"
    if ok: "fst (reconcile env T (this, producer) (Some Data)) = None"
      and ne: "defaultProps Data \<noteq> defaultsProps this"
  proof -
    have "e = None"
    proof (cases e)
      case None then show ?thesis .
    next
      case (Some x)
      with ok show ?thesis by (simp add: stopped)
    qed
    with a have "addMissing env ?snap this = (None, c1)" by simp
    from reconcile_Some [OF this, of T producer] ne
    have "snd (reconcile env T (this, producer) (Some Data))
            = SetDefaultProps env (c2, producer) (defaultProps Data)"
      by (simp add: c2_def Let_def)
    with d2 i2 show ?thesis by blast
  qed
  have aborted: "defaultsProps (fst (snd (reconcile env T (this, producer) (Some Data)))) = defaultsProps this
        \<and> snd (snd (reconcile env T (this, producer) (Some Data))) = producer"
    if no: "fst (reconcile env T (this, producer) (Some Data)) \<noteq> None"
  proof (cases e)
    case None
    with a have "addMissing env ?snap this = (None, c1)" by simp
    from reconcile_Some [OF this, of T producer]
    have "fst (reconcile env T (this, producer) (Some Data)) = None"
      by (simp add: Let_def)
    with no show ?thesis by simp
  next
    case (Some x)
    then show ?thesis by (simp add: stopped d1)
  qed
  show ?thesis
    apply (rule conjI, rule conjunct1 [OF s])
    apply (rule conjI, rule conjunct1 [OF conjunct2 [OF s]])
    apply (rule conjI, rule conjunct2 [OF conjunct2 [OF s]])
    apply (rule conjI, rule impI, rule same, assumption)
    apply (rule conjI, rule impI, erule conjE, rule differ, assumption+)
    apply (rule impI, rule aborted, assumption)
    done
qed

theorem SetDefaultProps_and_baseline_reapplication_witness:
  "fst (reconcile clientEnv tables0 (character0, []) (Some (snapshot [] 5))) = None
   \<and> defaultProps (snapshot [] 5) \<noteq> defaultsProps character0
   \<and> cell tables0 (defaultProps (snapshot [] 5)) = cell tables0 (defaultsProps character0)
   \<and> defaultsProps (fst (snd (reconcile clientEnv tables0 (character0, []) (Some (snapshot [] 5))))) = 5
   \<and> defaultsProps (fst (snd (reconcile clientEnv tables0 (character0, []) (Some (snapshot [] 0)))))
       = defaultsProps character0
   \<and> fst cycleUnknown \<noteq> None
   \<and> defaultProps (snapshot [(''x'', ''Unknown'')] 5) \<noteq> defaultsProps character1
   \<and> defaultsProps (fst (snd cycleUnknown)) = defaultsProps character1
   \<and> snd (snd cycleUnknown) = []"
proof -
  have h: "fst (reconcile clientEnv tables0 (character0, []) (Some (snapshot [] 5))) = None"
    by (simp add: reconcile_defs)
  have d: "defaultProps (snapshot [] 5) \<noteq> defaultsProps character0"
    by (simp add: snapshot_def character0_def newCharacter_def)
  have d0: "defaultProps (snapshot [] 0) = defaultsProps character0"
    by (simp add: snapshot_def character0_def newCharacter_def)
  have c: "cell tables0 (defaultProps (snapshot [] 5)) = cell tables0 (defaultsProps character0)"
    by (simp add: tables0_def)
  note R5 = SetDefaultProps_and_baseline_reapplication
              [of clientEnv character0 "[]" 0 tables0 "snapshot [] 5"]
  note R0 = SetDefaultProps_and_baseline_reapplication
              [of clientEnv character0 "[]" 0 tables0 "snapshot [] 0"]
  note RU = SetDefaultProps_and_baseline_reapplication
              [of clientEnv character1 "[]" 0 tables0 "snapshot [(''x'', ''Unknown'')] 5",
               folded cycleUnknown_def]
  from R5 h d obtain c2 where
    "snd (reconcile clientEnv tables0 (character0, []) (Some (snapshot [] 5)))
       = SetDefaultProps clientEnv (c2, []) (defaultProps (snapshot [] 5))"
    by blast
  then have r5: "defaultsProps (fst (snd (reconcile clientEnv tables0 (character0, [])
                    (Some (snapshot [] 5))))) = 5"
    by (simp add: snapshot_def)
  from R0 d0 have r0: "defaultsProps (fst (snd (reconcile clientEnv tables0 (character0, [])
                    (Some (snapshot [] 0))))) = defaultsProps character0"
    by blast
  have u: "fst cycleUnknown \<noteq> None"
    by (simp add: reconcile_defs cycleUnknown_def character1_def update_defs)
  have du: "defaultProps (snapshot [(''x'', ''Unknown'')] 5) \<noteq> defaultsProps character1"
    by (simp add: snapshot_def character1_def character0_def newCharacter_def update_defs)
  from RU u have ru: "defaultsProps (fst (snd cycleUnknown)) = defaultsProps character1
                      \<and> snd (snd cycleUnknown) = []"
    by blast
  from h d c r5 r0 u du ru show ?thesis by blast
qed

lemma cell_mutations_other:
  "r \<noteq> a \<Longrightarrow> cell (foldl (\<lambda>h f. mutate h r f) h fs) a = cell h a"
  by (induction fs arbitrary: h) (simp_all add: mutate_def)


text \<open>
  C9. \<open>GetDefaultsProps\<close> and \<open>GetCharacterMap\<close> return a new table that holds the content
  of the internal one. After any sequence of mutations of the returned table, the baseline
  table of the Character and the global map hold what they held before. The addresses of
  the internal tables are allocated ones.
\<close>

theorem accessors_return_copies:
  assumes "defaultsProps this < top T" and "currentCharMap w < top (maps w)"
  shows "cell (snd (GetDefaultsProps T this)) (fst (GetDefaultsProps T this)) = cell T (defaultsProps this)
   \<and> cell (foldl (\<lambda>h f. mutate h (fst (GetDefaultsProps T this)) f) (snd (GetDefaultsProps T this)) fs)
        (defaultsProps this) = cell T (defaultsProps this)
   \<and> cell (maps (snd (GetCharacterMap w))) (fst (GetCharacterMap w)) = cell (maps w) (currentCharMap w)
   \<and> currentCharMap (snd (GetCharacterMap w)) = currentCharMap w
   \<and> cell (foldl (\<lambda>h g. mutate h (fst (GetCharacterMap w)) g) (maps (snd (GetCharacterMap w))) gs)
        (currentCharMap w) = cell (maps w) (currentCharMap w)"
proof -
  have r1: "fst (GetDefaultsProps T this) = top T"
    and h1: "cell (snd (GetDefaultsProps T this)) = (cell T)(top T := cell T (defaultsProps this))"
    by (simp_all add: GetDefaultsProps_def clone_def alloc_def)
  have r2: "fst (GetCharacterMap w) = top (maps w)"
    and h2: "cell (maps (snd (GetCharacterMap w)))
               = (cell (maps w))(top (maps w) := cell (maps w) (currentCharMap w))"
    and c2: "currentCharMap (snd (GetCharacterMap w)) = currentCharMap w"
    by (simp_all add: GetCharacterMap_def clone_def alloc_def)
  from assms have n1: "top T \<noteq> defaultsProps this" and n2: "top (maps w) \<noteq> currentCharMap w"
    by simp_all
  show ?thesis
    unfolding r1 r2 using n1 n2
    by (simp add: cell_mutations_other h1 h2 c2)
qed


theorem accessors_return_copies_witness:
  "defaultsProps character0 < top tables0
   \<and> currentCharMap world1 < top (maps world1)
   \<and> WalkSpeed (cell (foldl (\<lambda>h f. mutate h (fst (GetDefaultsProps tables0 character0)) f)
                  (snd (GetDefaultsProps tables0 character0)) [\<lambda>p. p\<lparr>WalkSpeed := 99\<rparr>])
         (defaultsProps character0)) = 16
   \<and> map_of (cell (foldl (\<lambda>h g. mutate h (fst (GetCharacterMap world1)) g)
                (maps (snd (GetCharacterMap world1))) [\<lambda>m. []])
         (currentCharMap world1)) 7 = Some 0"
proof -
  have h1: "defaultsProps character0 < top tables0"
    by (simp add: character0_def newCharacter_def tables0_def)
  have h2: "currentCharMap world1 < top (maps world1)"
    by (simp add: world1_def world0_def constructor_def serverEnv_def alloc_def mutate_def Let_def)
  have v: "WalkSpeed (cell tables0 (defaultsProps character0)) = 16
           \<and> map_of (cell (maps world1) (currentCharMap world1)) 7 = Some 0"
    by (simp add: world1_def world0_def constructor_def serverEnv_def alloc_def mutate_def Let_def
        character0_def newCharacter_def tables0_def initialDefaultsProps_def)
  from accessors_return_copies [OF h1 h2, of "[\<lambda>p. p\<lparr>WalkSpeed := 99\<rparr>]" "[\<lambda>m. []]"] h1 h2 v
  show ?thesis by simp
qed

text \<open>
  C10. The snapshot of \<open>_packData\<close> holds the reference \<open>defaultsProps\<close> itself, and
  \<open>SetDefaultProps\<close> stores the reference it is given: a mutation through either reference
  is a mutation of the Character's baseline table. The table that \<open>GetDefaultsProps\<close>
  returns is another one, and a mutation of it leaves the baseline table as it was.
\<close>

theorem baseline_shared_by_reference:
  "defaultProps (Character_packData this) = defaultsProps this
   \<and> cell (mutate T (defaultProps (Character_packData this)) f) (defaultsProps this)
       = f (cell T (defaultsProps this))
   \<and> defaultsProps (fst (SetDefaultProps env (this, producer) p)) = p
   \<and> cell (mutate T p f) (defaultsProps (fst (SetDefaultProps env (this, producer) p))) = f (cell T p)
   \<and> (defaultsProps this < top T \<longrightarrow>
        fst (GetDefaultsProps T this) \<noteq> defaultsProps this
        \<and> cell (mutate (snd (GetDefaultsProps T this)) (fst (GetDefaultsProps T this)) f) (defaultsProps this)
            = cell T (defaultsProps this))"
  by (auto simp: Character_packData_def SetDefaultProps_def mutate_def GetDefaultsProps_def
      clone_def alloc_def)

theorem baseline_shared_by_reference_witness:
  "defaultsProps character0 < top tables0
   \<and> WalkSpeed (cell (mutate tables0 (defaultProps (Character_packData character0))
                        (\<lambda>p. p\<lparr>WalkSpeed := 99\<rparr>)) (defaultsProps character0)) = 99
   \<and> WalkSpeed (cell (mutate (snd (GetDefaultsProps tables0 character0))
                        (fst (GetDefaultsProps tables0 character0))
                        (\<lambda>p. p\<lparr>WalkSpeed := 99\<rparr>)) (defaultsProps character0)) = 16"
proof -
  have h1: "defaultsProps character0 < top tables0"
    by (simp add: character0_def newCharacter_def tables0_def)
  have v: "WalkSpeed (cell tables0 (defaultsProps character0)) = 16"
    by (simp add: tables0_def initialDefaultsProps_def)
  note R = baseline_shared_by_reference [of character0 tables0 "\<lambda>p. p\<lparr>WalkSpeed := 99\<rparr>" serverEnv "[]" 0]
  from R have "cell (mutate tables0 (defaultProps (Character_packData character0))
                        (\<lambda>p. p\<lparr>WalkSpeed := 99\<rparr>)) (defaultsProps character0)
                 = (cell tables0 (defaultsProps character0))\<lparr>WalkSpeed := 99\<rparr>"
    by (rule conjunct1 [OF conjunct2])
  then have a: "WalkSpeed (cell (mutate tables0 (defaultProps (Character_packData character0))
                        (\<lambda>p. p\<lparr>WalkSpeed := 99\<rparr>)) (defaultsProps character0)) = 99"
    by simp
  from R have "defaultsProps character0 < top tables0 \<longrightarrow>
        fst (GetDefaultsProps tables0 character0) \<noteq> defaultsProps character0
        \<and> cell (mutate (snd (GetDefaultsProps tables0 character0))
                   (fst (GetDefaultsProps tables0 character0)) (\<lambda>p. p\<lparr>WalkSpeed := 99\<rparr>))
             (defaultsProps character0)
            = cell tables0 (defaultsProps character0)"
    by (rule conjunct2 [OF conjunct2 [OF conjunct2 [OF conjunct2]]])
  with h1 have "cell (mutate (snd (GetDefaultsProps tables0 character0))
                   (fst (GetDefaultsProps tables0 character0)) (\<lambda>p. p\<lparr>WalkSpeed := 99\<rparr>))
             (defaultsProps character0)
            = cell tables0 (defaultsProps character0)"
    by blast
  with v have b: "WalkSpeed (cell (mutate (snd (GetDefaultsProps tables0 character0))
                        (fst (GetDefaultsProps tables0 character0))
                        (\<lambda>p. p\<lparr>WalkSpeed := 99\<rparr>)) (defaultsProps character0)) = 16"
    by simp
  from h1 a b show ?thesis by blast
qed

end
